theory Spec2Isabelle
  imports Complex_Main "HOL-Library.AList" "HOL-Library.Multiset"
begin

section \<open>Strings as the TypeScript sources use them\<close>

text \<open>
  Strings are lists of characters; a string whose characters are all ASCII (\<open>isAscii\<close>)
  stands for the JavaScript string of the same characters. \<open>toLowerCase\<close> is modelled on
  the ASCII letters. For the tests of the sources that search a lower-cased text for an
  ASCII keyword this loses nothing: the ASCII letters that lower-casing makes from other
  characters are \<open>k\<close> (from the Kelvin sign) and \<open>i\<close> followed by a combining dot (from
  the dotted capital I), and no keyword contains \<open>k\<close> or ends in \<open>i\<close>. Where a result
  depends on the lower case or the white space of other text, the properties below are
  stated for ASCII strings.
\<close>

definition isAscii :: "string \<Rightarrow> bool" where
  "isAscii s = list_all (\<lambda>c. (of_char c :: nat) < 128) s"

definition lowerTable :: "(char \<times> char) list" where
  "lowerTable = zip ''ABCDEFGHIJKLMNOPQRSTUVWXYZ'' ''abcdefghijklmnopqrstuvwxyz''"

definition toLowerChar :: "char \<Rightarrow> char" where
  "toLowerChar c = (case map_of lowerTable c of Some d \<Rightarrow> d | None \<Rightarrow> c)"

definition toLowerCase :: "string \<Rightarrow> string" where
  "toLowerCase s = map toLowerChar s"

text \<open>\<open>s.startsWith(p)\<close>\<close>

fun startsWith :: "string \<Rightarrow> string \<Rightarrow> bool" where
  "startsWith s [] = True"
| "startsWith [] (p # ps) = False"
| "startsWith (c # cs) (p # ps) = (c = p \<and> startsWith cs ps)"

text \<open>\<open>s.includes(sub)\<close>: \<open>sub\<close> occurs in \<open>s\<close> as a contiguous block.\<close>

fun includesStr :: "string \<Rightarrow> string \<Rightarrow> bool" where
  "includesStr [] sub = (sub = [])"
| "includesStr (c # cs) sub = (startsWith (c # cs) sub \<or> includesStr cs sub)"


section \<open>Numbers as the TypeScript sources use them\<close>

text \<open>
  A JavaScript number is an IEEE double. The model keeps a finite double as the
  rational number it is, so that comparisons, \<open>Math.min\<close>, \<open>Math.max\<close> and
  \<open>Math.round\<close> are those of the rationals, and integers are themselves. The rounded
  operations are a parameter of the model: \<open>fadd fp a b\<close>, \<open>fmul fp a b\<close> and
  \<open>fdiv fp a b\<close> are the doubles that \<open>a + b\<close>, \<open>a * b\<close> and \<open>a / b\<close> evaluate to, and
  \<open>flit fp q\<close> is the double that a decimal literal of value \<open>q\<close> denotes. Infinite
  values and \<open>NaN\<close> are outside the model. \<open>exactOps\<close> is the arithmetic without
  rounding; the examples are evaluated with it.
\<close>

record FloatOps =
  fadd :: "rat \<Rightarrow> rat \<Rightarrow> rat"
  fmul :: "rat \<Rightarrow> rat \<Rightarrow> rat"
  fdiv :: "rat \<Rightarrow> rat \<Rightarrow> rat"
  flit :: "rat \<Rightarrow> rat"

definition exactOps :: FloatOps where
  "exactOps = \<lparr>fadd = (\<lambda>a b. a + b), fmul = (\<lambda>a b. a * b), fdiv = (\<lambda>a b. a / b),
                flit = (\<lambda>q. q)\<rparr>"


section \<open>Approval flow (src/agent/approval.ts)\<close>

datatype RiskLevel = Low | Medium | High | Critical

text \<open>
  \<open>classifyRisk(operation, resource)\<close>, with the early returns of the source in the
  source's order.
\<close>

definition classifyRisk :: "string \<Rightarrow> string \<Rightarrow> RiskLevel" where
  "classifyRisk operation resource =
    (let op = toLowerCase operation; res = toLowerCase resource in
     if includesStr op ''delete'' \<or> includesStr op ''terminate'' \<or> includesStr op ''destroy''
       then Critical
     else if includesStr op ''truncate'' \<or> includesStr op ''drop''
       then Critical
     else if (includesStr res ''production'' \<or> includesStr res ''prod'')
             \<and> (includesStr op ''update'' \<or> includesStr op ''modify'')
       then High
     else if includesStr op ''restart'' \<or> includesStr op ''reboot'' \<or> includesStr op ''stop''
       then High
     else if includesStr op ''scale'' \<and> includesStr res ''down''
       then High
     else if includesStr op ''deploy'' \<or> includesStr op ''update-service''
       then High
     else if includesStr op ''update'' \<or> includesStr op ''modify'' \<or> includesStr op ''change''
       then Medium
     else if includesStr op ''scale''
       then Medium
     else Low)"

text \<open>
  The levels as the specification words them, each read on the lower-cased operation
  and resource: the operation names a destructive verb; it is a restart, reboot or stop,
  a scale-down, a deploy or update-service, or an update or modify on a production
  resource; it is another update or modify, or another scaling.
\<close>

definition spec_critical :: "string \<Rightarrow> bool" where
  "spec_critical op =
     list_ex (includesStr op) [''delete'', ''terminate'', ''destroy'', ''truncate'', ''drop'']"

definition spec_high :: "string \<Rightarrow> string \<Rightarrow> bool" where
  "spec_high op res =
     (list_ex (includesStr op)
        [''restart'', ''reboot'', ''stop'', ''scale-down'', ''deploy'', ''update-service'']
      \<or> ((includesStr op ''update'' \<or> includesStr op ''modify'')
          \<and> (includesStr res ''production'' \<or> includesStr res ''prod'')))"

definition spec_medium :: "string \<Rightarrow> bool" where
  "spec_medium op = list_ex (includesStr op) [''update'', ''modify'', ''scale'']"

definition spec_classifyRisk :: "string \<Rightarrow> string \<Rightarrow> RiskLevel" where
  "spec_classifyRisk operation resource =
    (let op = toLowerCase operation; res = toLowerCase resource in
     if spec_critical op then Critical
     else if spec_high op res then High
     else if spec_medium op then Medium
     else Low)"

text \<open>
  The tests of the code that do not involve scaling: the high level without its
  scaling rule, and the medium level without its scaling rule, which also counts a
  \<open>change\<close>.
\<close>

definition code_high :: "string \<Rightarrow> string \<Rightarrow> bool" where
  "code_high op res =
     (list_ex (includesStr op) [''restart'', ''reboot'', ''stop'', ''deploy'', ''update-service'']
      \<or> ((includesStr op ''update'' \<or> includesStr op ''modify'')
          \<and> (includesStr res ''production'' \<or> includesStr res ''prod'')))"

definition code_medium :: "string \<Rightarrow> bool" where
  "code_medium op = list_ex (includesStr op) [''update'', ''modify'', ''change'']"

text \<open>
  The cooldown tracker: the module-level \<open>recentMutations: Map<string, Date>\<close>, a date
  being its millisecond instant.
\<close>

type_synonym recentMutations = "string \<rightharpoonup> int"

definition noMutations :: recentMutations where
  "noMutations = Map.empty"

record CooldownResult =
  allowed :: bool
  remainingMs :: int

text \<open>
  \<open>checkCooldown(operation, cooldownMs = 60000)\<close>; \<open>now\<close> is \<open>Date.now()\<close> and an absent
  second argument is \<open>None\<close>.
\<close>

definition checkCooldown :: "recentMutations \<Rightarrow> int \<Rightarrow> string \<Rightarrow> int option \<Rightarrow> CooldownResult" where
  "checkCooldown recent now operation cooldownArg =
    (let cooldownMs = (case cooldownArg of None \<Rightarrow> 60000 | Some c \<Rightarrow> c) in
     case recent ''critical'' of
       None \<Rightarrow> \<lparr>allowed = True, remainingMs = 0\<rparr>
     | Some lastMutation \<Rightarrow>
         (let elapsed = now - lastMutation in
          if elapsed \<ge> cooldownMs then \<lparr>allowed = True, remainingMs = 0\<rparr>
          else \<lparr>allowed = False, remainingMs = cooldownMs - elapsed\<rparr>))"

text \<open>\<open>recordCriticalMutation()\<close> at the instant \<open>now\<close>.\<close>

definition recordCriticalMutation :: "int \<Rightarrow> recentMutations \<Rightarrow> recentMutations" where
  "recordCriticalMutation now recent = recent(''critical'' \<mapsto> now)"


section \<open>Service dependency graph (ServiceGraph)\<close>

datatype NodeType = Service | Database | Cache | Queue | External | Infrastructure

datatype Tier = TierCritical | TierHigh | TierMedium | TierLow

datatype EdgeType = Sync | Async | DatabaseEdge | CacheEdge | QueueEdge | ExternalEdge

datatype Criticality = critical | degraded | optional

text \<open>
  The interfaces of the source as records; a field name that two interfaces of the
  graph share gets its interface's initial. Dates are millisecond instants,
  \<open>metadata\<close> is kept as its serialisation.
\<close>

record ServiceNode =
  nid :: string
  nname :: string
  ntype :: NodeType
  team :: "string option"
  owner :: "string option"
  tier :: "Tier option"
  repository :: "string option"
  documentation :: "string option"
  runbooks :: "string list option"
  tags :: "string list"
  nmetadata :: string
  createdAt :: int
  updatedAt :: int

record DependencyEdge =
  eid :: string
  esource :: string
  etarget :: string
  etype :: EdgeType
  protocol :: "string option"
  ecriticality :: Criticality
  description :: "string option"
  emetadata :: string

record ImpactPath =
  psource :: string
  affected :: string
  path :: "string list"
  hops :: nat
  criticality :: Criticality

text \<open>
  A JavaScript \<open>Map\<close> keeps its keys in insertion order: an association list, with
  \<open>AList.update\<close> for \<open>set\<close> (in place for a key that is there, at the end for a new
  one), \<open>AList.delete\<close> for \<open>delete\<close> and \<open>map_of\<close> for \<open>get\<close>. A \<open>Set\<close> of edge
  ids is a list without repetition, \<open>setAdd\<close> being \<open>add\<close>.
\<close>

definition setAdd :: "'a \<Rightarrow> 'a list \<Rightarrow> 'a list" where
  "setAdd x xs = (if x \<in> set xs then xs else xs @ [x])"

record ServiceGraph =
  nodes :: "(string \<times> ServiceNode) list"
  edges :: "(string \<times> DependencyEdge) list"
  outgoing :: "(string \<times> string list) list"
  incoming :: "(string \<times> string list) list"

definition emptyGraph :: ServiceGraph where
  "emptyGraph = \<lparr>nodes = [], edges = [], outgoing = [], incoming = []\<rparr>"

text \<open>\<open>index.get(k) || new Set()\<close>\<close>

definition edgeIdsOf :: "(string \<times> string list) list \<Rightarrow> string \<Rightarrow> string list" where
  "edgeIdsOf index k = (case map_of index k of None \<Rightarrow> [] | Some ids \<Rightarrow> ids)"

text \<open>
  \<open>addService(service)\<close> at the instant \<open>now\<close> read by its \<open>new Date()\<close>. The spread
  \<open>{...service, createdAt: now, updatedAt: now}\<close> overrides whatever timestamps the
  argument carries.
\<close>

definition addService :: "int \<Rightarrow> ServiceNode \<Rightarrow> ServiceGraph \<Rightarrow> ServiceGraph" where
  "addService now service g =
    (let node = service\<lparr>createdAt := now, updatedAt := now\<rparr>;
         g1 = g\<lparr>nodes := AList.update (nid service) node (nodes g)\<rparr>;
         g2 = (if map_of (outgoing g1) (nid service) = None
               then g1\<lparr>outgoing := AList.update (nid service) [] (outgoing g1)\<rparr> else g1);
         g3 = (if map_of (incoming g2) (nid service) = None
               then g2\<lparr>incoming := AList.update (nid service) [] (incoming g2)\<rparr> else g2)
     in g3)"

definition getService :: "ServiceGraph \<Rightarrow> string \<Rightarrow> ServiceNode option" where
  "getService g i = map_of (nodes g) i"

text \<open>\<open>addDependency(edge)\<close>: the id is \<open>source->target\<close>, whatever id the argument has.\<close>

definition addDependency :: "DependencyEdge \<Rightarrow> ServiceGraph \<Rightarrow> ServiceGraph" where
  "addDependency edge g =
    (let i = esource edge @ ''->'' @ etarget edge;
         fullEdge = edge\<lparr>eid := i\<rparr>;
         g1 = g\<lparr>edges := AList.update i fullEdge (edges g)\<rparr>;
         g2 = g1\<lparr>outgoing :=
                 AList.update (esource edge) (setAdd i (edgeIdsOf (outgoing g1) (esource edge)))
                   (outgoing g1)\<rparr>;
         g3 = g2\<lparr>incoming :=
                 AList.update (etarget edge) (setAdd i (edgeIdsOf (incoming g2) (etarget edge)))
                   (incoming g2)\<rparr>
     in g3)"

definition getAllServices :: "ServiceGraph \<Rightarrow> ServiceNode list" where
  "getAllServices g = map snd (nodes g)"

definition getAllEdges :: "ServiceGraph \<Rightarrow> DependencyEdge list" where
  "getAllEdges g = map snd (edges g)"

text \<open>\<open>mergeCriticality(a, b)\<close> with its table \<open>order\<close>.\<close>

fun order :: "Criticality \<Rightarrow> nat" where
  "order critical = 0"
| "order degraded = 1"
| "order optional = 2"

definition mergeCriticality :: "Criticality \<Rightarrow> Criticality \<Rightarrow> Criticality" where
  "mergeCriticality a b = (if order a \<le> order b then a else b)"

text \<open>
  The closure \<open>traverse\<close> of \<open>getUpstreamImpact\<close> and of \<open>getDownstreamImpact\<close>. The two
  differ in the adjacency index they read (\<open>incoming\<close>, \<open>outgoing\<close>) and in the end of the
  edge they step to (\<open>source\<close>, \<open>target\<close>): these are the parameters \<open>index\<close> and
  \<open>endpoint\<close>. The captured variables \<open>visited\<close> and \<open>paths\<close> are the state that is passed
  and returned.
\<close>

function traverse ::
  "(string \<times> string list) list \<Rightarrow> (DependencyEdge \<Rightarrow> string) \<Rightarrow> ServiceGraph \<Rightarrow> int \<Rightarrow> string
    \<Rightarrow> string \<Rightarrow> string list \<Rightarrow> nat \<Rightarrow> Criticality
    \<Rightarrow> string list \<times> ImpactPath list \<Rightarrow> string list \<times> ImpactPath list" where
  "traverse index endpoint g maxDepth serviceId current pth depth crit st =
    (if int depth > maxDepth \<or> current \<in> set (fst st) then st
     else fold
       (\<lambda>edgeId st'.
          case map_of (edges g) edgeId of
            None \<Rightarrow> st'
          | Some edge \<Rightarrow>
              traverse index endpoint g maxDepth serviceId (endpoint edge) (pth @ [endpoint edge]) (depth + 1)
                (mergeCriticality crit (ecriticality edge))
                (fst st',
                 snd st' @ [\<lparr>psource = serviceId, affected = endpoint edge,
                             path = pth @ [endpoint edge], hops = length (pth @ [endpoint edge]),
                             criticality = mergeCriticality crit (ecriticality edge)\<rparr>]))
       (edgeIdsOf index current)
       (fst st @ [current], snd st))"
  by pat_completeness auto
termination
  by (relation "measure (\<lambda>(index, endpoint, g, maxDepth, serviceId, current, pth, depth, crit, st).
        nat (maxDepth + 1 - int depth))") auto

declare traverse.simps [simp del]

text \<open>
  \<open>getUpstreamImpact(serviceId, maxDepth)\<close> and \<open>getDownstreamImpact\<close>; the sort by
  \<open>hops\<close> is stable.
\<close>

definition getUpstreamImpact :: "ServiceGraph \<Rightarrow> string \<Rightarrow> int \<Rightarrow> ImpactPath list" where
  "getUpstreamImpact g serviceId maxDepth =
     sort_key hops
       (snd (traverse (incoming g) esource g maxDepth serviceId serviceId [serviceId] 0 critical
          ([], [])))"

definition getDownstreamImpact :: "ServiceGraph \<Rightarrow> string \<Rightarrow> int \<Rightarrow> ImpactPath list" where
  "getDownstreamImpact g serviceId maxDepth =
     sort_key hops
       (snd (traverse (outgoing g) etarget g maxDepth serviceId serviceId [serviceId] 0 critical
          ([], [])))"

text \<open>
  \<open>toJSON()\<close> writes the node values and the edge values in map order; \<open>fromJSON\<close> reads
  them back through \<open>addService\<close> and \<open>addDependency\<close>. A date survives
  \<open>JSON.stringify\<close> and \<open>new Date(...)\<close> unchanged, so the document keeps the instants.
  \<open>clock k\<close> is the instant that the \<open>k\<close>-th call of \<open>addService\<close> reads.
\<close>

record GraphDocument =
  doc_nodes :: "ServiceNode list"
  doc_edges :: "DependencyEdge list"

definition toJSON :: "ServiceGraph \<Rightarrow> GraphDocument" where
  "toJSON g = \<lparr>doc_nodes = map snd (nodes g), doc_edges = map snd (edges g)\<rparr>"

definition fromJSON :: "(nat \<Rightarrow> int) \<Rightarrow> GraphDocument \<Rightarrow> ServiceGraph" where
  "fromJSON clock doc =
     fold addDependency (doc_edges doc)
       (fold (\<lambda>(k, node) g. addService (clock k) node g) (enumerate 0 (doc_nodes doc))
          emptyGraph)"


section \<open>Blast radius (ServiceContextManager.calculateBlastRadius)\<close>

record BlastRadiusInfo =
  directDependents :: "ServiceNode list"
  transitiveDependents :: "ServiceNode list"
  criticalServicesAffected :: "ServiceNode list"
  totalAffected :: nat
  criticalPaths :: "ImpactPath list"

text \<open>The loop's variables: the set \<open>seen\<close> and the four lists being filled.\<close>

record BlastAcc =
  seen :: "string list"
  accDirect :: "ServiceNode list"
  accTransitive :: "ServiceNode list"
  accCritical :: "ServiceNode list"
  accPaths :: "ImpactPath list"

definition blastStep :: "ServiceGraph \<Rightarrow> ImpactPath \<Rightarrow> BlastAcc \<Rightarrow> BlastAcc" where
  "blastStep g p acc =
    (if affected p \<in> set (seen acc) then acc
     else let acc1 = acc\<lparr>seen := seen acc @ [affected p]\<rparr> in
       case getService g (affected p) of
         None \<Rightarrow> acc1
       | Some affectedService \<Rightarrow>
          (let acc2 = (if hops p = 1
                       then acc1\<lparr>accDirect := accDirect acc1 @ [affectedService]\<rparr>
                       else acc1\<lparr>accTransitive := accTransitive acc1 @ [affectedService]\<rparr>)
           in if tier affectedService = Some TierCritical
              then (let acc3 = acc2\<lparr>accCritical := accCritical acc2 @ [affectedService]\<rparr>
                    in if criticality p = critical
                       then acc3\<lparr>accPaths := accPaths acc3 @ [p]\<rparr> else acc3)
              else acc2))"

text \<open>\<open>calculateBlastRadius(serviceId)\<close>, for the configuration's \<open>maxDependentsDepth\<close>.\<close>

definition calculateBlastRadius :: "ServiceGraph \<Rightarrow> int \<Rightarrow> string \<Rightarrow> BlastRadiusInfo" where
  "calculateBlastRadius g maxDependentsDepth serviceId =
    (let impactPaths = getUpstreamImpact g serviceId maxDependentsDepth;
         acc = fold (blastStep g) impactPaths
                 \<lparr>seen = [], accDirect = [], accTransitive = [], accCritical = [], accPaths = []\<rparr>
     in \<lparr>directDependents = accDirect acc,
         transitiveDependents = accTransitive acc,
         criticalServicesAffected = accCritical acc,
         totalAffected = length (accDirect acc) + length (accTransitive acc),
         criticalPaths = accPaths acc\<rparr>)"

text \<open>Services and edges to build example graphs with.\<close>

definition service :: "string \<Rightarrow> NodeType \<Rightarrow> ServiceNode" where
  "service i t = \<lparr>nid = i, nname = i, ntype = t, team = None, owner = None, tier = None,
     repository = None, documentation = None, runbooks = None, tags = [], nmetadata = ''{}'',
     createdAt = 0, updatedAt = 0\<rparr>"

definition dependency :: "string \<Rightarrow> string \<Rightarrow> Criticality \<Rightarrow> DependencyEdge" where
  "dependency s t c = \<lparr>eid = [], esource = s, etarget = t, etype = Sync, protocol = None,
     ecriticality = c, description = None, emetadata = ''{}''\<rparr>"

text \<open>
  The graph of two services in which \<open>a\<close> depends on \<open>b\<close> through one optional edge,
  built at the instant 1000.
\<close>

definition exampleGraph :: ServiceGraph where
  "exampleGraph =
     addDependency (dependency ''a'' ''b'' optional)
       (addService 1000 (service ''b'' Service)
          (addService 1000 (service ''a'' Service) emptyGraph))"

text \<open>
  The specification's reading of a path's criticality: the criticalities of the
  edges between consecutive services of a stored upstream path (each step goes from a
  service to one that depends on it), and their minimum in the order
  \<open>critical < degraded < optional\<close>.
\<close>

fun spec_upstreamEdges :: "ServiceGraph \<Rightarrow> string list \<Rightarrow> Criticality list" where
  "spec_upstreamEdges g (x # y # rest) =
     (case map_of (edges g) (y @ ''->'' @ x) of
        None \<Rightarrow> spec_upstreamEdges g (y # rest)
      | Some e \<Rightarrow> ecriticality e # spec_upstreamEdges g (y # rest))"
| "spec_upstreamEdges g _ = []"

fun spec_minimum :: "Criticality list \<Rightarrow> Criticality option" where
  "spec_minimum [] = None"
| "spec_minimum [c] = Some c"
| "spec_minimum (c # d # cs) =
     (case spec_minimum (d # cs) of
        None \<Rightarrow> Some c
      | Some m \<Rightarrow> Some (if order c \<le> order m then c else m))"


section \<open>Investigation memory (src/agent/investigation-memory.ts)\<close>

datatype FindingType =
  symptom | evidence | hypothesis_update | root_cause_candidate | remediation_step
  | escalation | service_impact

text \<open>
  Modelled from the spec: the declarations of \<open>EvidenceStrength\<close>, \<open>ConfidenceLevel\<close> and
  \<open>Hypothesis\<close> are in \<open>./types\<close>, which is not among the sources. The strengths are
  the five of the specification's data model, the confidence levels are the literals
  the code assigns, and of a hypothesis the code reads \<open>id\<close> and \<open>statement\<close>.
\<close>

datatype EvidenceStrength = pending | none | weak | strong | contradicting

datatype ConfidenceLevel = ConfHigh | ConfMedium | ConfLow

record Hypothesis =
  hid :: string
  statement :: string

record InvestigationNote =
  noteId :: string
  noteType :: FindingType
  content :: string
  confidence :: ConfidenceLevel
  evidenceStrength :: "EvidenceStrength option"
  sourceResultIds :: "string list"
  servicesInvolved :: "string list"
  hypothesisId :: "string option"
  noteTimestamp :: string
  iteration :: nat

record RootCause =
  rcHypothesis :: string
  rcConfidence :: ConfidenceLevel
  rcEvidence :: "string list"

record InvestigationState =
  query :: string
  incidentId :: "string option"
  sessionId :: string
  stNotes :: "InvestigationNote list"
  progressSummary :: string
  servicesDiscovered :: "string list"
  symptomsIdentified :: "string list"
  activeHypotheses :: "string list"
  prunedHypotheses :: "string list"
  confirmedRootCause :: "RootCause option"
  currentIteration :: nat
  startedAt :: string
  lastUpdatedAt :: string

text \<open>The state that the constructor sets up, at the instant \<open>now\<close> (an ISO string).\<close>

definition initialState :: "string \<Rightarrow> string \<Rightarrow> string \<Rightarrow> InvestigationState" where
  "initialState q sid now =
     \<lparr>query = q, incidentId = None, sessionId = sid, stNotes = [],
      progressSummary = ''Investigation started.'', servicesDiscovered = [],
      symptomsIdentified = [], activeHypotheses = [], prunedHypotheses = [],
      confirmedRootCause = None, currentIteration = 0, startedAt = now, lastUpdatedAt = now\<rparr>"

text \<open>The \<open>options\<close> argument of \<open>addNote\<close>.\<close>

record NoteOptions =
  optConfidence :: "ConfidenceLevel option"
  optEvidenceStrength :: "EvidenceStrength option"
  optSourceResultIds :: "string list option"
  optServicesInvolved :: "string list option"
  optHypothesisId :: "string option"

text \<open>
  What a call reads from outside: the note id that \<open>Date.now()\<close> and \<open>Math.random()\<close>
  make up, and the ISO string of \<open>new Date()\<close>.
\<close>

record NoteEnv =
  freshNoteId :: string
  isoNow :: string

definition orElse :: "'a option \<Rightarrow> 'a \<Rightarrow> 'a" where
  "orElse x d = (case x of None \<Rightarrow> d | Some v \<Rightarrow> v)"

text \<open>\<open>addNote(type, content, options)\<close>; the model returns the new state, the note
  being the last of its \<open>stNotes\<close> (the field \<open>notes\<close>).\<close>

definition addNote ::
  "NoteEnv \<Rightarrow> FindingType \<Rightarrow> string \<Rightarrow> NoteOptions \<Rightarrow> InvestigationState \<Rightarrow> InvestigationState" where
  "addNote env t c options st =
    (let note = \<lparr>noteId = freshNoteId env, noteType = t, content = c,
                  confidence = orElse (optConfidence options) ConfMedium,
                  evidenceStrength = optEvidenceStrength options,
                  sourceResultIds = orElse (optSourceResultIds options) [],
                  servicesInvolved = orElse (optServicesInvolved options) [],
                  hypothesisId = optHypothesisId options,
                  noteTimestamp = isoNow env,
                  iteration = currentIteration st\<rparr>;
         st1 = st\<lparr>stNotes := stNotes st @ [note], lastUpdatedAt := noteTimestamp note\<rparr>
     in if length (servicesInvolved note) > 0
        then st1\<lparr>servicesDiscovered := servicesDiscovered st1 @
               filter (\<lambda>s. s \<notin> set (servicesDiscovered st1)) (servicesInvolved note)\<rparr>
        else st1)"

text \<open>\<open>addEvidence(hypothesisId, evidence, strength, options)\<close>; an absent or empty
  \<open>sourceResultId\<close> gives no source.\<close>

definition addEvidence ::
  "NoteEnv \<Rightarrow> string \<Rightarrow> string \<Rightarrow> EvidenceStrength \<Rightarrow> string option \<Rightarrow> string list option
     \<Rightarrow> InvestigationState \<Rightarrow> InvestigationState" where
  "addEvidence env hypId ev strength sourceResultId services st =
     addNote env evidence ev
       \<lparr>optConfidence = Some (if strength = strong then ConfHigh
                               else if strength = weak then ConfLow else ConfMedium),
        optEvidenceStrength = Some strength,
        optSourceResultIds = Some (case sourceResultId of
                                     None \<Rightarrow> [] | Some r \<Rightarrow> if r = [] then [] else [r]),
        optServicesInvolved = Some (orElse services []),
        optHypothesisId = Some hypId\<rparr> st"

datatype HypothesisAction = formed | pruned | confirmed

definition actionText :: "HypothesisAction \<Rightarrow> string" where
  "actionText a = (case a of formed \<Rightarrow> ''formed'' | pruned \<Rightarrow> ''pruned''
                   | confirmed \<Rightarrow> ''confirmed'')"

text \<open>\<open>addHypothesisUpdate(hypothesis, action, reasoning?)\<close>\<close>

definition addHypothesisUpdate ::
  "NoteEnv \<Rightarrow> Hypothesis \<Rightarrow> HypothesisAction \<Rightarrow> string option \<Rightarrow> InvestigationState
     \<Rightarrow> InvestigationState" where
  "addHypothesisUpdate env hypothesis action reasoning st =
    (let st1 = (if action = formed \<or> action = confirmed
                then (if hid hypothesis \<notin> set (activeHypotheses st)
                      then st\<lparr>activeHypotheses := activeHypotheses st @ [hid hypothesis]\<rparr>
                      else st)
                else st);
         st2 = (if action = pruned
                then (let s = st1\<lparr>activeHypotheses :=
                                  filter (\<lambda>i. i \<noteq> hid hypothesis) (activeHypotheses st1)\<rparr>
                      in if hid hypothesis \<notin> set (prunedHypotheses s)
                         then s\<lparr>prunedHypotheses := prunedHypotheses s @ [hid hypothesis]\<rparr>
                         else s)
                else st1);
         st3 = (if action = confirmed
                then st2\<lparr>confirmedRootCause := Some
                       \<lparr>rcHypothesis = statement hypothesis, rcConfidence = ConfHigh,
                        rcEvidence = map content
                          (filter (\<lambda>n. hypothesisId n = Some (hid hypothesis)
                                       \<and> noteType n = evidence) (stNotes st2))\<rparr>\<rparr>
                else st2);
         c = ''Hypothesis '' @ hid hypothesis @ '' '' @ actionText action @ '': ''
               @ statement hypothesis
               @ (case reasoning of None \<Rightarrow> []
                  | Some r \<Rightarrow> if r = [] then [] else ''. Reasoning: '' @ r)
     in addNote env hypothesis_update c
          \<lparr>optConfidence = Some (if action = confirmed then ConfHigh else ConfMedium),
           optEvidenceStrength = None, optSourceResultIds = None,
           optServicesInvolved = None, optHypothesisId = Some (hid hypothesis)\<rparr> st3)"

text \<open>
  The specification's reading of the evidence of a confirmed root cause: the contents
  of the notes of strong evidence attached to the hypothesis. And the code's: the
  contents of all its evidence notes.
\<close>

definition spec_strongEvidence :: "InvestigationState \<Rightarrow> Hypothesis \<Rightarrow> string list" where
  "spec_strongEvidence st h =
     map content (filter (\<lambda>n. hypothesisId n = Some (hid h) \<and> noteType n = evidence
                              \<and> evidenceStrength n = Some strong) (stNotes st))"

definition evidenceNotesOf :: "InvestigationState \<Rightarrow> Hypothesis \<Rightarrow> string list" where
  "evidenceNotesOf st h =
     map content (filter (\<lambda>n. hypothesisId n = Some (hid h) \<and> noteType n = evidence) (stNotes st))"

text \<open>An investigation in which one note of weak evidence was attached to \<open>h1\<close>.\<close>

definition exampleHypothesis :: Hypothesis where
  "exampleHypothesis = \<lparr>hid = ''h1'', statement = ''Connection pool exhausted''\<rparr>"

definition exampleInvestigation :: InvestigationState where
  "exampleInvestigation =
     addEvidence \<lparr>freshNoteId = ''note-1-aaaa'', isoNow = ''2024-01-01T00:00:01.000Z''\<rparr>
       ''h1'' ''CPU looks normal'' weak None None
       (initialState ''why is checkout slow'' ''inv-1'' ''2024-01-01T00:00:00.000Z'')"

definition exampleEnv :: NoteEnv where
  "exampleEnv = \<lparr>freshNoteId = ''note-2-bbbb'', isoNow = ''2024-01-01T00:00:02.000Z''\<rparr>"


section \<open>Tool results, summaries and compaction plans\<close>

text \<open>
  Modelled from the spec: \<open>ToolResultEntry\<close> is declared in \<open>./types\<close> and
  \<open>CompactToolResult\<close> in \<open>./tool-summarizer\<close>, neither among the sources. An entry has
  the fields that \<open>getResultById\<close> copies; a summary has the fields the code reads,
  with the four health values of the specification's \<open>CompactSummary\<close>.

  Of the arguments of a tool call the code reads the properties \<open>query\<close>, \<open>search\<close> and
  \<open>filter\<close>, and the serialisation \<open>JSON.stringify(args)\<close>. A property is a string,
  some other truthy value, or absent or otherwise falsy. A result is a string, or any
  other value, kept as its serialisation.

  A \<open>TieredToolResult\<close> is an entry that also has \<open>resultId\<close>, \<open>tier\<close>, and perhaps
  \<open>compact\<close> and \<open>importanceScore\<close>; on a plain entry these are \<open>None\<close>. Scores are
  exact rationals.
\<close>

datatype ArgValue = StrArg string | TruthyArg | FalsyArg

record ToolArgs =
  argQuery :: ArgValue
  argSearch :: ArgValue
  argFilter :: ArgValue
  argsJson :: string

datatype ResultValue = StringResult string | JsonResult string

datatype StorageTier = TierFull | TierCompact | TierCleared

datatype HealthStatus = HealthOk | HealthDegraded | HealthCritical | HealthUnknown

record CompactToolResult =
  cResultId :: string
  summary :: string
  services :: "string list"
  hasErrors :: bool
  healthStatus :: HealthStatus

record ToolResultEntry =
  tool :: string
  args :: ToolArgs
  result :: ResultValue
  durationMs :: int
  timestamp :: string
  resultId :: "string option"
  tier :: "StorageTier option"
  compactOf :: "CompactToolResult option"
  importanceScore :: "rat option"

record ScoreComponents =
  recency :: rat
  queryRelevance :: rat
  errorSignals :: rat
  hypothesisRelevance :: rat
  serviceRelevance :: rat
  citedInNotes :: rat

record ScoredResult =
  entry :: ToolResultEntry
  score :: rat
  components :: ScoreComponents
  srCompact :: "CompactToolResult option"
  srKeepFull :: bool

record CompactionPlan =
  keepFull :: "ScoredResult list"
  keepCompact :: "ScoredResult list"
  clear :: "ScoredResult list"
  estimatedTokensSaved :: int


section \<open>Scratchpad (src/agent/scratchpad.ts)\<close>

text \<open>Numbers in template strings and in \<open>toString(36)\<close>.\<close>

definition digitChar :: "nat \<Rightarrow> char" where
  "digitChar n = ''0123456789abcdefghijklmnopqrstuvwxyz'' ! n"

function toStringBase :: "nat \<Rightarrow> nat \<Rightarrow> string" where
  "toStringBase b n =
     (if b < 2 \<or> n < b then [digitChar n]
      else toStringBase b (n div b) @ [digitChar (n mod b)])"
  by pat_completeness auto
termination
  by (relation "measure (\<lambda>(b, n). n)") auto

declare toStringBase.simps [simp del]

definition showNat :: "nat \<Rightarrow> string" where
  "showNat n = toStringBase 10 n"

definition showInt :: "int \<Rightarrow> string" where
  "showInt i = (if i < 0 then ''-'' @ showNat (nat (- i)) else showNat (nat i))"

text \<open>\<open>s.slice(-n)\<close> and \<open>s.padStart(n, '0')\<close>\<close>

definition sliceLast :: "nat \<Rightarrow> string \<Rightarrow> string" where
  "sliceLast n s = drop (length s - n) s"

definition padStart0 :: "nat \<Rightarrow> string \<Rightarrow> string" where
  "padStart0 n s = replicate (n - length s) CHR ''0'' @ s"

text \<open>
  \<open>split\<close> at white space (the regular expression of one or more white space
  characters), on the ASCII white space: the pieces between maximal runs of white space, with an empty piece before a leading and after a trailing run.
\<close>

definition isSpace :: "char \<Rightarrow> bool" where
  "isSpace c = (c \<in> set [CHR '' '', CHR 0x09, CHR 0x0A, CHR 0x0B, CHR 0x0C, CHR 0x0D])"

function splitWhitespace :: "string \<Rightarrow> string list" where
  "splitWhitespace [] = [[]]"
| "splitWhitespace (c # cs) =
     (if isSpace c then [] # splitWhitespace (dropWhile isSpace cs)
      else (case splitWhitespace cs of
              w # ws \<Rightarrow> (c # w) # ws
            | [] \<Rightarrow> [[c]]))"
  by pat_completeness auto
termination
  by (relation "measure length") (auto simp: le_imp_less_Suc length_dropWhile_le)

record ToolUsageStats =
  callCount :: nat
  queries :: "string list"

record ToolLimitResult =
  tlAllowed :: bool
  warning :: "string option"

text \<open>
  The scratchpad's fields that the operations below read or write. The log \<open>entries\<close>
  and the JSONL file only ever receive copies and are read by none of these operations;
  they are left out.
\<close>

record Scratchpad =
  toolUsage :: "(string \<times> ToolUsageStats) list"
  toolLimits :: "(string \<times> int) list"
  tieredResults :: "(string \<times> ToolResultEntry) list"
  resultIdCounter :: nat
  archivedResults :: "(string \<times> ToolResultEntry) list"

definition newScratchpad :: "(string \<times> int) list \<Rightarrow> Scratchpad" where
  "newScratchpad limits =
     \<lparr>toolUsage = [], toolLimits = limits, tieredResults = [], resultIdCounter = 0,
      archivedResults = []\<rparr>"

text \<open>\<open>a || b\<close> on argument values: the empty string is falsy.\<close>

definition truthy :: "ArgValue \<Rightarrow> bool" where
  "truthy a = (case a of StrArg s \<Rightarrow> s \<noteq> [] | TruthyArg \<Rightarrow> True | FalsyArg \<Rightarrow> False)"

definition orArg :: "ArgValue \<Rightarrow> ArgValue \<Rightarrow> ArgValue" where
  "orArg a b = (if truthy a then a else b)"

text \<open>\<open>trackToolUsage(entry)\<close>\<close>

definition trackToolUsage :: "ToolResultEntry \<Rightarrow> Scratchpad \<Rightarrow> Scratchpad" where
  "trackToolUsage e sp =
    (let stats = orElse (map_of (toolUsage sp) (tool e)) \<lparr>callCount = 0, queries = []\<rparr>;
         stats1 = stats\<lparr>callCount := callCount stats + 1\<rparr>;
         queryArg = orArg (argQuery (args e)) (orArg (argSearch (args e))
                      (orArg (argFilter (args e)) (StrArg (argsJson (args e)))));
         stats2 = (case queryArg of
                     StrArg q \<Rightarrow> stats1\<lparr>queries := queries stats1 @ [q]\<rparr>
                   | _ \<Rightarrow> stats1)
     in sp\<lparr>toolUsage := AList.update (tool e) stats2 (toolUsage sp)\<rparr>)"

text \<open>\<open>generateResultId(toolName)\<close> after the counter was incremented to \<open>counter\<close>, at
  the instant \<open>nowMs\<close> of \<open>Date.now()\<close>.\<close>

definition generateResultId :: "string \<Rightarrow> nat \<Rightarrow> nat \<Rightarrow> string" where
  "generateResultId toolName nowMs counter =
     toLowerCase (take 3 toolName) @ ''-'' @ sliceLast 4 (toStringBase 36 nowMs)
       @ padStart0 2 (toStringBase 36 counter)"

text \<open>
  \<open>appendToolResult(entry, options)\<close> with the options \<open>compact\<close> and \<open>tier\<close>, at
  the instant \<open>nowMs\<close>, whose ISO string is \<open>nowIso\<close>. It returns the result id and
  the new scratchpad.
\<close>

definition appendToolResult ::
  "nat \<Rightarrow> string \<Rightarrow> ToolResultEntry \<Rightarrow> CompactToolResult option \<Rightarrow> StorageTier option
     \<Rightarrow> Scratchpad \<Rightarrow> string \<times> Scratchpad" where
  "appendToolResult nowMs nowIso e optCompact optTier sp =
    (let sp1 = sp\<lparr>resultIdCounter := resultIdCounter sp + 1\<rparr>;
         rid = generateResultId (tool e) nowMs (resultIdCounter sp1);
         fullEntry = e\<lparr>timestamp := nowIso, resultId := Some rid,
                       tier := Some (orElse optTier TierFull), compactOf := optCompact\<rparr>;
         sp2 = sp1\<lparr>tieredResults := AList.update rid fullEntry (tieredResults sp1)\<rparr>
     in (rid, trackToolUsage fullEntry sp2))"

text \<open>\<open>maxSimilarity(query, previousQueries)\<close>: the greatest Jaccard similarity of word
  sets.\<close>

definition jaccard :: "FloatOps \<Rightarrow> string \<Rightarrow> string \<Rightarrow> rat" where
  "jaccard fp q prev =
    (let queryWords = remdups (splitWhitespace (toLowerCase q));
         prevWords = remdups (splitWhitespace (toLowerCase prev));
         intersection = filter (\<lambda>w. w \<in> set prevWords) queryWords;
         union = remdups (queryWords @ prevWords)
     in fdiv fp (of_nat (length intersection)) (of_nat (length union)))"

definition maxSimilarity :: "FloatOps \<Rightarrow> string \<Rightarrow> string list \<Rightarrow> rat" where
  "maxSimilarity fp q previousQueries =
     fold (\<lambda>prev maxSim. max maxSim (jaccard fp q prev)) previousQueries 0"

text \<open>\<open>Math.round(x)\<close>: the nearest integer, a half going up.\<close>

definition mathRound :: "rat \<Rightarrow> int" where
  "mathRound x = \<lfloor>x + 1 / 2\<rfloor>"

text \<open>
  \<open>this.toolLimits[toolName] || 5\<close>. The limits are an object: a name that is not one
  of its own properties, and is a property of \<open>Object.prototype\<close>, reads that inherited
  member, which is not a number (\<open>None\<close>): every comparison with it is false.
\<close>

definition objectPrototypeNames :: "string list" where
  "objectPrototypeNames =
     [''constructor'', ''__defineGetter__'', ''__defineSetter__'', ''hasOwnProperty'',
      ''__lookupGetter__'', ''__lookupSetter__'', ''isPrototypeOf'', ''propertyIsEnumerable'',
      ''toString'', ''valueOf'', ''__proto__'', ''toLocaleString'']"

definition limitOf :: "(string \<times> int) list \<Rightarrow> string \<Rightarrow> int option" where
  "limitOf limits toolName =
     (case map_of limits toolName of
        Some l \<Rightarrow> Some (if l = 0 then 5 else l)
      | None \<Rightarrow> if toolName \<in> set objectPrototypeNames then None else Some 5)"

text \<open>
  \<open>canCallTool(toolName, query?)\<close>. \<open>similarTo\<close> is the test
  \<open>query && stats.queries.length > 0\<close> with \<open>similarity > 0.8\<close>, giving the
  similarity when it holds.
\<close>

definition similarTo :: "FloatOps \<Rightarrow> ToolUsageStats \<Rightarrow> string option \<Rightarrow> rat option" where
  "similarTo fp stats q =
     (case q of
        None \<Rightarrow> None
      | Some s \<Rightarrow>
          if s \<noteq> [] \<and> length (queries stats) > 0
             \<and> maxSimilarity fp s (queries stats) > flit fp (8 / 10)
          then Some (maxSimilarity fp s (queries stats)) else None)"

definition retryWarning :: "FloatOps \<Rightarrow> string \<Rightarrow> rat \<Rightarrow> string" where
  "retryWarning fp toolName similarity =
     ''Query appears similar to a previous \"'' @ toolName @ ''\" call (''
       @ showInt (mathRound (fmul fp similarity 100))
       @ ''% similarity). This might be a retry loop.''"

definition canCallTool :: "FloatOps \<Rightarrow> Scratchpad \<Rightarrow> string \<Rightarrow> string option \<Rightarrow> ToolLimitResult" where
  "canCallTool fp sp toolName q =
    (case map_of (toolUsage sp) toolName of
       None \<Rightarrow> \<lparr>tlAllowed = True, warning = None\<rparr>
     | Some stats \<Rightarrow>
         (case limitOf (toolLimits sp) toolName of
            Some limit \<Rightarrow>
              if int (callCount stats) \<ge> limit
              then \<lparr>tlAllowed = True, warning = Some
                     (''Tool \"'' @ toolName @ ''\" has been called '' @ showNat (callCount stats)
                      @ '' times (suggested limit: '' @ showInt limit
                      @ ''). Consider if additional calls are necessary.'')\<rparr>
              else (case similarTo fp stats q of
                  Some similarity \<Rightarrow>
                    \<lparr>tlAllowed = True, warning = Some (retryWarning fp toolName similarity)\<rparr>
                | None \<Rightarrow>
                   if int (callCount stats) = limit - 1
                   then \<lparr>tlAllowed = True, warning = Some
                     (''Approaching suggested limit for \"'' @ toolName @ ''\" (''
                      @ showNat (callCount stats + 1) @ ''/'' @ showInt limit @ '' calls).'')\<rparr>
                   else \<lparr>tlAllowed = True, warning = None\<rparr>)
          | None \<Rightarrow>
              (case similarTo fp stats q of
                 Some similarity \<Rightarrow>
                   \<lparr>tlAllowed = True, warning = Some (retryWarning fp toolName similarity)\<rparr>
               | None \<Rightarrow> \<lparr>tlAllowed = True, warning = None\<rparr>)))"

text \<open>
  The Jaccard similarity as the specification words it: the words of a text are the
  pieces between white space of its lower case, and the similarity of two texts is
  the number of their common words divided by the number of all their words.
\<close>

definition wordSet :: "string \<Rightarrow> string set" where
  "wordSet s = set (splitWhitespace (toLowerCase s))"

definition spec_jaccard :: "FloatOps \<Rightarrow> string \<Rightarrow> string \<Rightarrow> rat" where
  "spec_jaccard fp a b =
     fdiv fp (of_nat (card (wordSet a \<inter> wordSet b))) (of_nat (card (wordSet a \<union> wordSet b)))"

text \<open>
  The queries that a test of similarity reads: the query asked about and the recorded
  ones. \<open>asciiQueries\<close> says that they are ASCII strings.
\<close>

definition asciiQueries :: "ToolUsageStats \<Rightarrow> string option \<Rightarrow> bool" where
  "asciiQueries stats q =
     ((case q of None \<Rightarrow> True | Some s \<Rightarrow> isAscii s) \<and> list_all isAscii (queries stats))"

text \<open>
  \<open>applyCompactionPlan(plan)\<close>: the three loops, each step guarded by
  \<open>resultId && this.tieredResults.has(resultId)\<close>.
\<close>

definition planTarget :: "Scratchpad \<Rightarrow> ScoredResult \<Rightarrow> (string \<times> ToolResultEntry) option" where
  "planTarget sp scored =
     (case resultId (entry scored) of
        None \<Rightarrow> None
      | Some rid \<Rightarrow> if rid = [] then None
                    else map_option (Pair rid) (map_of (tieredResults sp) rid))"

definition stripTiered :: "ToolResultEntry \<Rightarrow> ToolResultEntry" where
  "stripTiered r = r\<lparr>resultId := None, tier := None, compactOf := None, importanceScore := None\<rparr>"

definition applyFull :: "ScoredResult \<Rightarrow> Scratchpad \<Rightarrow> Scratchpad" where
  "applyFull scored sp =
     (case planTarget sp scored of
        None \<Rightarrow> sp
      | Some (rid, r) \<Rightarrow>
          sp\<lparr>tieredResults := AList.update rid
                (r\<lparr>tier := Some TierFull, importanceScore := Some (score scored)\<rparr>)
                (tieredResults sp)\<rparr>)"

definition applyCompact :: "ScoredResult \<Rightarrow> Scratchpad \<Rightarrow> Scratchpad" where
  "applyCompact scored sp =
     (case planTarget sp scored of
        None \<Rightarrow> sp
      | Some (rid, r) \<Rightarrow>
          sp\<lparr>tieredResults := AList.update rid
                (r\<lparr>tier := Some TierCompact, compactOf := srCompact scored,
                   importanceScore := Some (score scored)\<rparr>)
                (tieredResults sp)\<rparr>)"

definition applyClear :: "ScoredResult \<Rightarrow> Scratchpad \<Rightarrow> Scratchpad" where
  "applyClear scored sp =
     (case planTarget sp scored of
        None \<Rightarrow> sp
      | Some (rid, r) \<Rightarrow>
          sp\<lparr>tieredResults := AList.update rid
                (r\<lparr>tier := Some TierCleared, importanceScore := Some (score scored)\<rparr>)
                (tieredResults sp),
             archivedResults := AList.update rid (stripTiered r) (archivedResults sp)\<rparr>)"

definition applyCompactionPlan :: "CompactionPlan \<Rightarrow> Scratchpad \<Rightarrow> Scratchpad" where
  "applyCompactionPlan plan sp =
     fold applyClear (clear plan) (fold applyCompact (keepCompact plan)
       (fold applyFull (keepFull plan) sp))"

text \<open>\<open>getResultById(resultId)\<close>, \<open>None\<close> being \<open>null\<close>.\<close>

definition getResultById :: "Scratchpad \<Rightarrow> string \<Rightarrow> ToolResultEntry option" where
  "getResultById sp rid =
     (case map_of (tieredResults sp) rid of
        Some tiered \<Rightarrow> Some (stripTiered tiered)
      | None \<Rightarrow> map_of (archivedResults sp) rid)"

text \<open>\<open>setCompactResult(resultId, compact)\<close>\<close>

definition setCompactResult :: "string \<Rightarrow> CompactToolResult \<Rightarrow> Scratchpad \<Rightarrow> Scratchpad" where
  "setCompactResult rid c sp =
     (case map_of (tieredResults sp) rid of
        None \<Rightarrow> sp
      | Some r \<Rightarrow> sp\<lparr>tieredResults := AList.update rid (r\<lparr>compactOf := Some c\<rparr>) (tieredResults sp)\<rparr>)"

text \<open>
  Example calls: a tool called with the argument \<open>query\<close>, and the scratchpad after a
  list of such calls was appended (all at one instant, which does not matter here).
\<close>

definition exampleCall :: "string \<Rightarrow> string \<Rightarrow> ToolResultEntry" where
  "exampleCall t q =
     \<lparr>tool = t,
      args = \<lparr>argQuery = StrArg q, argSearch = FalsyArg, argFilter = FalsyArg,
               argsJson = ''{\"query\":\"'' @ q @ ''\"}''\<rparr>,
      result = StringResult ''ok'', durationMs = 5, timestamp = [], resultId = None,
      tier = None, compactOf = None, importanceScore = None\<rparr>"

definition scratchpadAfter :: "(string \<times> int) list \<Rightarrow> ToolResultEntry list \<Rightarrow> Scratchpad" where
  "scratchpadAfter limits es =
     fold (\<lambda>e sp. snd (appendToolResult 1700000000000 ''2023-11-14T22:13:20.000Z'' e None None sp))
       es (newScratchpad limits)"

text \<open>
  An investigation's use of the scratchpad, as a list of operations: results are
  appended (each at its instant), compaction plans are applied, summaries are set.
  \<open>assigned\<close> lists the result ids that \<open>appendToolResult\<close> returned during a run, each
  with the entry that was passed to that call and the instant the call read for its
  \<open>timestamp\<close>. \<open>clockOk\<close> says that an append reads an instant of at least \<open>36^3\<close>
  milliseconds, so that its base-36 form has the four digits that \<open>slice(-4)\<close> takes:
  any instant later than the first minute of 1970.
\<close>

datatype ScratchOp =
  OpAppend nat string ToolResultEntry "CompactToolResult option" "StorageTier option"
  | OpCompaction CompactionPlan
  | OpSetCompact string CompactToolResult

fun stepOp :: "ScratchOp \<Rightarrow> Scratchpad \<Rightarrow> Scratchpad" where
  "stepOp (OpAppend nowMs nowIso e c t) sp = snd (appendToolResult nowMs nowIso e c t sp)"
| "stepOp (OpCompaction plan) sp = applyCompactionPlan plan sp"
| "stepOp (OpSetCompact rid c) sp = setCompactResult rid c sp"

definition runOps :: "ScratchOp list \<Rightarrow> Scratchpad \<Rightarrow> Scratchpad" where
  "runOps ops sp = fold stepOp ops sp"

fun assigned :: "ScratchOp list \<Rightarrow> Scratchpad \<Rightarrow> (string \<times> ToolResultEntry \<times> string) list" where
  "assigned [] sp = []"
| "assigned (OpAppend nowMs nowIso e c t # ops) sp =
     (fst (appendToolResult nowMs nowIso e c t sp), e, nowIso)
       # assigned ops (snd (appendToolResult nowMs nowIso e c t sp))"
| "assigned (OpCompaction plan # ops) sp = assigned ops (applyCompactionPlan plan sp)"
| "assigned (OpSetCompact rid c # ops) sp = assigned ops (setCompactResult rid c sp)"

fun clockOk :: "ScratchOp \<Rightarrow> bool" where
  "clockOk (OpAppend nowMs nowIso e c t) = (46656 \<le> nowMs)"
| "clockOk (OpCompaction plan) = True"
| "clockOk (OpSetCompact rid c) = True"

text \<open>
  For the proofs: two scratchpads hold the same results when the counter and the
  full results under every id agree and nothing is archived that was not tiered; and
  the invariant that relates a scratchpad to the ids assigned so far, each with the
  entry as \<open>appendToolResult\<close> stored it (\<open>storedAs\<close>).
\<close>

definition storedAs :: "string \<times> ToolResultEntry \<times> string \<Rightarrow> string \<times> ToolResultEntry" where
  "storedAs a = (case a of (rid, e, nowIso) \<Rightarrow> (rid, stripTiered (e\<lparr>timestamp := nowIso\<rparr>)))"

definition sameResults :: "Scratchpad \<Rightarrow> Scratchpad \<Rightarrow> bool" where
  "sameResults sp sp' \<longleftrightarrow>
     resultIdCounter sp' = resultIdCounter sp
   \<and> (\<forall>rid. map_option stripTiered (map_of (tieredResults sp') rid)
              = map_option stripTiered (map_of (tieredResults sp) rid))
   \<and> (\<forall>rid. map_of (archivedResults sp') rid \<noteq> None \<longrightarrow>
          map_of (archivedResults sp) rid \<noteq> None \<or> map_of (tieredResults sp) rid \<noteq> None)"

definition archiveInv :: "Scratchpad \<Rightarrow> (string \<times> ToolResultEntry) list \<Rightarrow> bool" where
  "archiveInv sp A \<longleftrightarrow>
     (\<forall>rid. rid \<in> fst ` set A \<longleftrightarrow> map_of (tieredResults sp) rid \<noteq> None)
   \<and> (\<forall>rid r. (rid, r) \<in> set A \<longrightarrow>
         (\<exists>t. map_of (tieredResults sp) rid = Some t \<and> stripTiered t = r))
   \<and> (\<forall>rid. map_of (archivedResults sp) rid \<noteq> None \<longrightarrow> map_of (tieredResults sp) rid \<noteq> None)
   \<and> (\<forall>rid. map_of (tieredResults sp) rid \<noteq> None \<longrightarrow>
         (\<exists>toolName nowMs c. rid = generateResultId toolName nowMs c
            \<and> c \<le> resultIdCounter sp \<and> 46656 \<le> nowMs))"

definition digits36 :: string where
  "digits36 = ''0123456789abcdefghijklmnopqrstuvwxyz''"

text \<open>One result is appended and then cleared by a compaction plan.\<close>

definition exampleOps :: "ScratchOp list" where
  "exampleOps =
     [OpAppend 1700000000000 ''2023-11-14T22:13:20.000Z'' (exampleCall ''search_logs'' ''errors'')
        None None,
      OpCompaction \<lparr>keepFull = [], keepCompact = [],
        clear = [\<lparr>entry = (exampleCall ''search_logs'' ''errors'')\<lparr>resultId := Some ''sea-3v2801''\<rparr>,
                  score = 1 / 10,
                  components = \<lparr>recency = 1, queryRelevance = 0, errorSignals = 0,
                    hypothesisRelevance = 0, serviceRelevance = 0, citedInNotes = 0\<rparr>,
                  srCompact = None, srKeepFull = False\<rparr>],
        estimatedTokensSaved = 2000\<rparr>]"


section \<open>Context compactor (ContextCompactor)\<close>




































section \<open>Slack webhook server (verifySlackSignature, handleApprovalAction, the request handler)\<close>

text \<open>
  \<open>parseInt(s, 10)\<close>: leading white space, an optional sign, then the longest run of
  decimal digits; \<open>None\<close> is \<open>NaN\<close>, the result when there is no digit. The string is
  the value of a header, whose characters are Latin-1: the white space that \<open>parseInt\<close>
  skips is, among these, the ASCII white space and the no-break space.
\<close>

definition isStrWhiteSpace :: "char \<Rightarrow> bool" where
  "isStrWhiteSpace c = (isSpace c \<or> c = CHR 0xA0)"

definition isDigit :: "char \<Rightarrow> bool" where
  "isDigit c = (c \<in> set ''0123456789'')"

definition digitValue :: "char \<Rightarrow> int" where
  "digitValue c = int (length (takeWhile (\<lambda>d. d \<noteq> c) ''0123456789''))"

definition digitsValue :: "string \<Rightarrow> int" where
  "digitsValue ds = foldl (\<lambda>acc c. acc * 10 + digitValue c) 0 ds"

definition parseInt10 :: "string \<Rightarrow> int option" where
  "parseInt10 s =
    (let s1 = dropWhile isStrWhiteSpace s;
         negative = (case s1 of c # _ \<Rightarrow> c = CHR ''-'' | [] \<Rightarrow> False);
         s2 = (case s1 of c # cs \<Rightarrow> if c = CHR ''-'' \<or> c = CHR ''+'' then cs else s1 | [] \<Rightarrow> []);
         ds = takeWhile isDigit s2
     in if ds = [] then None
        else Some (if negative then - digitsValue ds else digitsValue ds))"

text \<open>
  \<open>verifySlackSignature(signingSecret, signature, timestamp, body)\<close> at the instant
  \<open>nowMs\<close> of \<open>Date.now()\<close>. The platform's \<open>createHmac('sha256', key).update(msg).digest('hex')\<close>
  is the parameter \<open>hmac\<close>. A comparison with \<open>NaN\<close> is false, so a timestamp that
  does not parse passes the test of age. \<open>timingSafeEqual\<close> throws on buffers of
  different lengths, which is caught and gives false: both cases come to equality.
\<close>

definition verifySlackSignature ::
  "(string \<Rightarrow> string \<Rightarrow> string) \<Rightarrow> string \<Rightarrow> string option \<Rightarrow> string option \<Rightarrow> string \<Rightarrow> int
     \<Rightarrow> bool" where
  "verifySlackSignature hmac signingSecret signatureHeader timestampHeader body nowMs =
    (case (signatureHeader, timestampHeader) of
       (Some sig, Some ts) \<Rightarrow>
         if sig = [] \<or> ts = [] then False
         else (let requestTimestamp = parseInt10 ts;
                   currentTime = nowMs div 1000
               in if (case requestTimestamp of
                        None \<Rightarrow> False
                      | Some t \<Rightarrow> \<bar>currentTime - t\<bar> > 300)
                  then False
                  else (let sigBaseString = ''v0:'' @ ts @ '':'' @ body;
                            mySignature = ''v0='' @ hmac signingSecret sigBaseString
                        in mySignature = sig))
     | _ \<Rightarrow> False)"

record SlackUser =
  username :: string
  displayName :: string

record SlackAction =
  action_id :: string
  actionValue :: string

text \<open>
  The payload of an interaction, as far as the handler reads it: \<open>ptype\<close> is the
  property \<open>type\<close>, \<open>actions\<close> is empty when the property is absent, and
  \<open>hasChannelAndMessage\<close> says whether the message on Slack is updated (a call of the
  Slack client whose failure is caught, and which writes no file).
\<close>

record SlackInteractionPayload =
  ptype :: string
  user :: SlackUser
  actions :: "SlackAction list"
  hasChannelAndMessage :: bool

text \<open>The decision that is written as \<open>{mutationId}.json\<close>.\<close>

record ApprovalResponse =
  approved :: bool
  approvedBy :: string
  approvedByName :: string
  approvedAt :: string
  reason :: string

datatype FileContent = DecisionFile ApprovalResponse | PendingFile string

type_synonym FileSystem = "string \<rightharpoonup> FileContent"

record ActionResult =
  ok :: bool
  message :: string

text \<open>
  \<open>join(...paths)\<close> of the module \<open>path\<close> on POSIX: the non-empty arguments are joined
  with \<open>/\<close> and the result is normalised. Normalising reads the segments between the
  slashes from left to right: an empty segment and \<open>.\<close> are dropped; \<open>..\<close> removes the
  segment before it, or is kept when there is none to remove and the path is relative;
  any other segment is kept. A leading and a trailing slash are kept, and a path that
  comes out empty is \<open>/\<close>, \<open>./\<close> or \<open>.\<close>.
\<close>

fun splitOn :: "char \<Rightarrow> string \<Rightarrow> string list" where
  "splitOn d [] = [[]]"
| "splitOn d (c # cs) =
     (if c = d then [] # splitOn d cs
      else (case splitOn d cs of s # ss \<Rightarrow> (c # s) # ss | [] \<Rightarrow> [[c]]))"

fun joinWith :: "string \<Rightarrow> string list \<Rightarrow> string" where
  "joinWith sep [] = []"
| "joinWith sep [x] = x"
| "joinWith sep (x # y # ys) = x @ sep @ joinWith sep (y # ys)"

definition normalizeStep :: "bool \<Rightarrow> string list \<Rightarrow> string \<Rightarrow> string list" where
  "normalizeStep allowAboveRoot res seg =
     (if seg = [] \<or> seg = ''.'' then res
      else if seg = ''..'' then
        (if res \<noteq> [] \<and> last res \<noteq> ''..'' then butlast res
         else if allowAboveRoot then res @ [''..'']
         else res)
      else res @ [seg])"

definition normalizeString :: "string \<Rightarrow> bool \<Rightarrow> string" where
  "normalizeString p allowAboveRoot =
     joinWith ''/'' (foldl (normalizeStep allowAboveRoot) [] (splitOn CHR ''/'' p))"

definition normalize :: "string \<Rightarrow> string" where
  "normalize p =
     (if p = [] then ''.''
      else let isAbsolute = (hd p = CHR ''/'');
               trailingSeparator = (last p = CHR ''/'');
               np = normalizeString p (\<not> isAbsolute)
           in if np = []
              then (if isAbsolute then ''/'' else if trailingSeparator then ''./'' else ''.'')
              else let np1 = (if trailingSeparator then np @ ''/'' else np)
                   in if isAbsolute then CHR ''/'' # np1 else np1)"

definition join :: "string list \<Rightarrow> string" where
  "join paths =
     (let parts = filter (\<lambda>a. a \<noteq> []) paths
      in if parts = [] then ''.'' else normalize (joinWith ''/'' parts))"

text \<open>
  \<open>handleApprovalAction(payload, action, pendingDir)\<close> on the file system \<open>fs\<close>, at
  the instant whose ISO string is \<open>nowIso\<close>; it returns its result and the file system
  it leaves. The file system maps a path, as the code passes it to \<open>existsSync\<close>,
  \<open>writeFileSync\<close> and \<open>unlinkSync\<close>, to the content of the file there. Writing the
  decision and removing the pending file are taken to succeed.
\<close>

definition handleApprovalAction ::
  "SlackInteractionPayload \<Rightarrow> SlackAction \<Rightarrow> string \<Rightarrow> string \<Rightarrow> FileSystem
     \<Rightarrow> ActionResult \<times> FileSystem" where
  "handleApprovalAction payload action pendingDir nowIso fs =
    (let actionId = action_id action;
         mutationId = actionValue action;
         isApprove = startsWith actionId ''approve_'';
         isReject = startsWith actionId ''reject_''
     in if \<not> isApprove \<and> \<not> isReject then (\<lparr>ok = False, message = ''Unknown action''\<rparr>, fs)
        else let responseFile = join [pendingDir, mutationId @ ''.json''];
                 pendingFile = join [pendingDir, mutationId @ ''_pending.json'']
             in if fs pendingFile = None
                then (\<lparr>ok = False,
                       message = ''This approval request has expired or was already handled''\<rparr>, fs)
                else let response =
                           \<lparr>approved = isApprove,
                            approvedBy = ''slack:'' @ username (user payload),
                            approvedByName = displayName (user payload),
                            approvedAt = nowIso,
                            reason = (if isApprove then ''Approved via Slack''
                                      else ''Rejected via Slack'')\<rparr>;
                         fs1 = fs(responseFile \<mapsto> DecisionFile response);
                         fs2 = fs1(pendingFile := None)
                     in (\<lparr>ok = True,
                          message = (if isApprove then ''Mutation approved''
                                     else ''Mutation rejected'')\<rparr>, fs2))"

text \<open>
  A request: its url, method, the two Slack headers, the body, and what
  \<open>JSON.parse(parseFormData(body).payload || '{}')\<close> makes of the body, \<open>None\<close> when it
  throws.
\<close>

record HttpRequest =
  url :: string
  httpMethod :: string
  slackSignature :: "string option"
  slackTimestamp :: "string option"
  body :: string
  parsedPayload :: "SlackInteractionPayload option"

datatype ResponseBody =
  HealthBody string | ClearBody string | TextBody string | NoBody

record HttpResponse =
  status :: nat
  responseBody :: ResponseBody

text \<open>The configuration; \<open>pendingDir\<close> is optional.\<close>

record WebhookServerConfig =
  port :: nat
  signingSecret :: string
  pendingDir :: "string option"

text \<open>
  \<open>config.pendingDir || join(process.cwd(), '.runbook', 'pending')\<close>: an absent and an
  empty \<open>pendingDir\<close> give the directory under the working directory \<open>cwd\<close>.
\<close>

definition pendingDirOf :: "string \<Rightarrow> WebhookServerConfig \<Rightarrow> string" where
  "pendingDirOf cwd config =
     (case pendingDir config of
        None \<Rightarrow> join [cwd, ''.runbook'', ''pending'']
      | Some d \<Rightarrow> if d = [] then join [cwd, ''.runbook'', ''pending''] else d)"

text \<open>
  The handler that \<open>createRequestHandler(config)\<close> returns, in a process whose working
  directory is \<open>cwd\<close>.
\<close>

definition handleRequest ::
  "(string \<Rightarrow> string \<Rightarrow> string) \<Rightarrow> string \<Rightarrow> WebhookServerConfig \<Rightarrow> int \<Rightarrow> string
     \<Rightarrow> HttpRequest \<Rightarrow> FileSystem \<Rightarrow> HttpResponse \<times> FileSystem" where
  "handleRequest hmac cwd config nowMs nowIso req fs =
    (if url req = ''/health'' \<and> httpMethod req = ''GET''
     then (\<lparr>status = 200, responseBody = HealthBody nowIso\<rparr>, fs)
     else if url req \<noteq> ''/slack/interactions'' \<or> httpMethod req \<noteq> ''POST''
     then (\<lparr>status = 404, responseBody = TextBody ''Not found''\<rparr>, fs)
     else if \<not> verifySlackSignature hmac (signingSecret config) (slackSignature req)
                 (slackTimestamp req) (body req) nowMs
     then (\<lparr>status = 401, responseBody = TextBody ''Invalid signature''\<rparr>, fs)
     else case parsedPayload req of
            None \<Rightarrow> (\<lparr>status = 500, responseBody = TextBody ''Internal error''\<rparr>, fs)
          | Some payload \<Rightarrow>
              (case (if ptype payload = ''block_actions'' then actions payload else []) of
                 action # _ \<Rightarrow>
                   if startsWith (action_id action) ''approve_''
                      \<or> startsWith (action_id action) ''reject_''
                   then (let (res, fs') = handleApprovalAction payload action
                                            (pendingDirOf cwd config) nowIso fs
                         in (\<lparr>status = 200, responseBody = ClearBody (message res)\<rparr>, fs'))
                   else (\<lparr>status = 200, responseBody = NoBody\<rparr>, fs)
               | [] \<Rightarrow> (\<lparr>status = 200, responseBody = NoBody\<rparr>, fs)))"

text \<open>
  An approval click on the button of mutation \<open>mut_1\<close>, signed with the secret at the
  second 1700000000, and the configuration it is sent to. The body is the form field
  \<open>payload\<close> with the URL-encoded JSON text
  \<open>{"type":"block_actions","user":{"id":"U1","username":"alice","name":"Alice"},"actions":[{"action_id":"approve_mutation","block_id":"b1","value":"mut_1","type":"button"}]}\<close>,
  and the payload is what that text parses to.
\<close>

definition exampleConfig :: WebhookServerConfig where
  "exampleConfig = \<lparr>port = 3000, signingSecret = ''s'', pendingDir = Some ''/pending''\<rparr>"

definition clickBody :: string where
  "clickBody =
      ''payload=%7B%22type%22%3A%22block_actions%22%2C%22user%22%3A%7B%22id%22'' @
      ''%3A%22U1%22%2C%22username%22%3A%22alice%22%2C%22name%22%3A%22Alice%22%'' @
      ''7D%2C%22actions%22%3A%5B%7B%22action_id%22%3A%22approve_mutation%22%2C'' @
      ''%22block_id%22%3A%22b1%22%2C%22value%22%3A%22mut_1%22%2C%22type%22%3A%'' @
      ''22button%22%7D%5D%7D''"

definition approvalClick :: "(string \<Rightarrow> string \<Rightarrow> string) \<Rightarrow> HttpRequest" where
  "approvalClick hmac =
     \<lparr>url = ''/slack/interactions'', httpMethod = ''POST'',
      slackSignature = Some (''v0='' @ hmac ''s'' (''v0:1700000000:'' @ clickBody)),
      slackTimestamp = Some ''1700000000'',
      body = clickBody,
      parsedPayload = Some
        \<lparr>ptype = ''block_actions'',
         user = \<lparr>username = ''alice'', displayName = ''Alice''\<rparr>,
         actions = [\<lparr>action_id = ''approve_mutation'', actionValue = ''mut_1''\<rparr>],
         hasChannelAndMessage = False\<rparr>\<rparr>"

text \<open>The signature that Slack computes: \<open>v0=\<close> and the digest of \<open>v0:{ts}:{body}\<close>.\<close>

definition expectedSignature :: "(string \<Rightarrow> string \<Rightarrow> string) \<Rightarrow> string \<Rightarrow> string \<Rightarrow> string \<Rightarrow> string" where
  "expectedSignature hmac secret ts bodyText = ''v0='' @ hmac secret (''v0:'' @ ts @ '':'' @ bodyText)"

text \<open>A pending directory in which the request for \<open>mut_1\<close> waits.\<close>

definition pendingFs :: FileSystem where
  "pendingFs = [''/pending/mut_1_pending.json'' \<mapsto> PendingFile ''{\"mutationId\":\"mut_1\"}'']"


section \<open>Properties of the approval flow\<close>

lemma recordCriticalMutation_fold:
  "fold recordCriticalMutation ts recent ''critical'' =
     (if ts = [] then recent ''critical'' else Some (last ts))"
  by (induction ts arbitrary: recent) (auto simp: recordCriticalMutation_def)

text \<open>
  C10. \<open>checkCooldown\<close> does not look at its operation argument. After critical mutations
  were recorded at the instants \<open>ts\<close> (in this order, from a fresh process), the answer
  depends on the last of them only: allowed with nothing remaining when none was
  recorded or when at least \<open>cooldownMs\<close> have elapsed since, and otherwise refused with
  \<open>cooldownMs\<close> minus the elapsed time remaining.
\<close>

theorem checkCooldown_ignores_operation:
  "checkCooldown recent now op1 cd = checkCooldown recent now op2 cd
   \<and> checkCooldown (fold recordCriticalMutation ts noMutations) now op1 cd =
       (let cooldownMs = (case cd of None \<Rightarrow> 60000 | Some c \<Rightarrow> c) in
        if ts = [] then \<lparr>allowed = True, remainingMs = 0\<rparr>
        else if now - last ts \<ge> cooldownMs then \<lparr>allowed = True, remainingMs = 0\<rparr>
        else \<lparr>allowed = False, remainingMs = cooldownMs - (now - last ts)\<rparr>)"
  by (simp add: checkCooldown_def recordCriticalMutation_fold noMutations_def Let_def)

text \<open>
  The scaling rule of the code reads the resource, not the operation: a scale-down
  of a resource whose name lacks \<open>down\<close> is medium, and a scale-up of a resource whose
  name contains \<open>down\<close> is high.
\<close>

lemma classifyRisk_scale_resource:
  "classifyRisk ''scale-down'' ''web-asg'' = Medium
   \<and> classifyRisk ''scale-up'' ''download-service'' = High"
  by (simp add: classifyRisk_def toLowerCase_def toLowerChar_def lowerTable_def)

text \<open>
  C8, as the specification words it, fails: an operation that only names a
  \<open>change\<close> is none of the listed kinds, so the specification makes it low, and the
  code makes it medium.
\<close>

theorem classifyRisk_change_counterexample:
  "classifyRisk ''change-config'' ''queue'' = Medium
   \<and> spec_classifyRisk ''change-config'' ''queue'' = Low"
  by (simp add: classifyRisk_def spec_classifyRisk_def spec_critical_def spec_high_def
      spec_medium_def toLowerCase_def toLowerChar_def lowerTable_def)

text \<open>
  C8, amended. On the lower-cased operation and resource, \<open>classifyRisk\<close> answers
  critical when the operation contains delete, terminate, destroy, truncate or drop;
  otherwise high when it contains restart, reboot, stop, deploy or update-service, or
  contains update or modify with a resource containing production or prod; otherwise,
  for an operation that does not contain scale, medium when it contains update, modify
  or change, and low when it does not. An operation containing scale that is neither
  critical nor high by these rules is medium or high; which of the two is not stated.
\<close>

theorem classifyRisk_levels:
  "(spec_critical (toLowerCase operation) \<longrightarrow> classifyRisk operation resource = Critical)
   \<and> (\<not> spec_critical (toLowerCase operation) \<longrightarrow>
        code_high (toLowerCase operation) (toLowerCase resource) \<longrightarrow>
        classifyRisk operation resource = High)
   \<and> (\<not> spec_critical (toLowerCase operation) \<longrightarrow>
        \<not> code_high (toLowerCase operation) (toLowerCase resource) \<longrightarrow>
        \<not> includesStr (toLowerCase operation) ''scale'' \<longrightarrow>
        classifyRisk operation resource =
          (if code_medium (toLowerCase operation) then Medium else Low))
   \<and> (\<not> spec_critical (toLowerCase operation) \<longrightarrow>
        \<not> code_high (toLowerCase operation) (toLowerCase resource) \<longrightarrow>
        includesStr (toLowerCase operation) ''scale'' \<longrightarrow>
        classifyRisk operation resource = Medium \<or> classifyRisk operation resource = High)"
  by (auto simp: classifyRisk_def spec_critical_def code_high_def code_medium_def Let_def)

text \<open>
  One operation for each rule: a delete, a restart, an update of a production
  resource, a change, a read, and a scaling.
\<close>

theorem classifyRisk_levels_witness:
  "classifyRisk ''delete-bucket'' ''logs'' = Critical
   \<and> classifyRisk ''restart-service'' ''web'' = High
   \<and> classifyRisk ''update-config'' ''prod-db'' = High
   \<and> classifyRisk ''change-config'' ''queue'' = Medium
   \<and> classifyRisk ''describe-instances'' ''web'' = Low
   \<and> (classifyRisk ''scale-out'' ''web'' = Medium \<or> classifyRisk ''scale-out'' ''web'' = High)"
  using classifyRisk_levels [of "''delete-bucket''" "''logs''"]
    classifyRisk_levels [of "''restart-service''" "''web''"]
    classifyRisk_levels [of "''update-config''" "''prod-db''"]
    classifyRisk_levels [of "''change-config''" "''queue''"]
    classifyRisk_levels [of "''describe-instances''" "''web''"]
    classifyRisk_levels [of "''scale-out''" "''web''"]
  by (simp add: spec_critical_def code_high_def code_medium_def
      toLowerCase_def toLowerChar_def lowerTable_def)


section \<open>Properties of the service graph\<close>

lemma fold_inv:
  assumes "\<And>x s. x \<in> set xs \<Longrightarrow> Q s \<Longrightarrow> Q (f x s)" and "Q s0"
  shows "Q (fold f xs s0)"
  using assms by (induction xs arbitrary: s0) auto

lemma mergeCriticality_critical: "mergeCriticality critical b = critical"
  by (simp add: mergeCriticality_def)

lemma traverse_stop:
  "int depth > maxDepth \<or> current \<in> set (fst st) \<Longrightarrow>
   traverse index endpoint g maxDepth sid current pth depth crit st = st"
  by (simp add: traverse.simps)

text \<open>
  An invariant of the traversal: a property \<open>Q\<close> of the recorded paths holds of all
  of them when every pushed path has it, given a property \<open>R\<close> of the pair of path and
  criticality that the recursion carries.
\<close>

lemma traverse_inv:
  assumes st: "\<forall>p \<in> set (snd st). Q p"
    and r: "R pth crit"
    and new: "\<And>pth' crit' e. R pth' crit' \<Longrightarrow>
        R (pth' @ [endpoint e]) (mergeCriticality crit' (ecriticality e))
        \<and> Q \<lparr>psource = sid, affected = endpoint e, path = pth' @ [endpoint e],
              hops = length (pth' @ [endpoint e]),
              criticality = mergeCriticality crit' (ecriticality e)\<rparr>"
  shows "\<forall>p \<in> set (snd (traverse index endpoint g maxDepth sid current pth depth crit st)). Q p"
  using st r new
proof (induction index endpoint g maxDepth sid current pth depth crit st rule: traverse.induct)
  case (1 index endpoint g maxDepth serviceId current pth depth crit st)
  show ?case
  proof (cases "int depth > maxDepth \<or> current \<in> set (fst st)")
    case True
    then show ?thesis using "1.prems"(1) by (simp add: traverse_stop)
  next
    case False
    let ?Q = "\<lambda>s::string list \<times> ImpactPath list. \<forall>p \<in> set (snd s). Q p"
    let ?f = "(\<lambda>edgeId st'.
          case map_of (edges g) edgeId of
            None \<Rightarrow> st'
          | Some edge \<Rightarrow>
              traverse index endpoint g maxDepth serviceId (endpoint edge) (pth @ [endpoint edge])
                (depth + 1) (mergeCriticality crit (ecriticality edge))
                (fst st',
                 snd st' @ [\<lparr>psource = serviceId, affected = endpoint edge,
                             path = pth @ [endpoint edge], hops = length (pth @ [endpoint edge]),
                             criticality = mergeCriticality crit (ecriticality edge)\<rparr>]))"
    have step: "?Q (?f x s)" if "x \<in> set (edgeIdsOf index current)" and "?Q s" for x s
    proof (cases "map_of (edges g) x")
      case None
      then show ?thesis using that by simp
    next
      case (Some e)
      note n = "1.prems"(3)[OF "1.prems"(2), of e]
      have a: "?Q (fst s, snd s @ [\<lparr>psource = serviceId, affected = endpoint e,
                             path = pth @ [endpoint e], hops = length (pth @ [endpoint e]),
                             criticality = mergeCriticality crit (ecriticality e)\<rparr>])"
        using that(2) n by simp
      have b: "R (pth @ [endpoint e]) (mergeCriticality crit (ecriticality e))"
        using n by simp
      from "1.IH"[OF False that(1) Some a b "1.prems"(3)] show ?thesis using Some by simp
    qed
    have "?Q (fold ?f (edgeIdsOf index current) (fst st @ [current], snd st))"
      by (rule fold_inv[where Q = ?Q]) (use step "1.prems"(1) in auto)
    then show ?thesis using False
      by (simp add: traverse.simps[of index endpoint g maxDepth serviceId current pth depth crit st])
  qed
qed

lemma traverse_hops:
  "\<forall>p \<in> set (snd (traverse index endpoint g maxDepth sid sid [sid] 0 critical ([], []))).
     hops p = length (path p) \<and> 2 \<le> hops p \<and> hd (path p) = sid"
  by (rule traverse_inv[where R = "\<lambda>pth crit. pth \<noteq> [] \<and> hd pth = sid"])
     (auto simp: Suc_le_eq)

lemma traverse_always_critical:
  "\<forall>p \<in> set (snd (traverse index endpoint g maxDepth sid sid [sid] 0 critical ([], []))).
     criticality p = critical"
  by (rule traverse_inv[where R = "\<lambda>pth crit. crit = critical"])
     (auto simp: mergeCriticality_critical)

lemma getUpstreamImpact_hops:
  "\<forall>p \<in> set (getUpstreamImpact g v d).
     hops p = length (path p) \<and> 2 \<le> hops p \<and> hd (path p) = v"
  using traverse_hops[of "incoming g" esource g d v] by (auto simp: getUpstreamImpact_def)

text \<open>
  What the code computes as the criticality of an impact path, upstream and
  downstream: the accumulator starts at \<open>critical\<close>, which \<open>mergeCriticality\<close> never
  leaves.
\<close>

lemma impact_always_critical:
  "(\<forall>p \<in> set (getUpstreamImpact g v d). criticality p = critical)
   \<and> (\<forall>p \<in> set (getDownstreamImpact g v d). criticality p = critical)"
  using traverse_always_critical[of "incoming g" esource g d v]
    traverse_always_critical[of "outgoing g" etarget g d v]
  by (auto simp: getUpstreamImpact_def getDownstreamImpact_def)

text \<open>
  C1. On the graph whose only edge, from \<open>a\<close> to \<open>b\<close>, is optional, the upstream impact
  of \<open>b\<close> is the one path \<open>[b, a]\<close>. The minimum of the criticality of its edges is
  optional; the code reports critical, as it does for the downstream impact of \<open>a\<close>.
\<close>

theorem getUpstreamImpact_optional_edge:
  "getUpstreamImpact exampleGraph ''b'' 5 =
     [\<lparr>psource = ''b'', affected = ''a'', path = [''b'', ''a''], hops = 2,
       criticality = critical\<rparr>]
   \<and> spec_minimum (spec_upstreamEdges exampleGraph [''b'', ''a'']) = Some optional
   \<and> getDownstreamImpact exampleGraph ''a'' 5 =
     [\<lparr>psource = ''a'', affected = ''b'', path = [''a'', ''b''], hops = 2,
       criticality = critical\<rparr>]"
  by code_simp

text \<open>
  C2. The example graph was built at the instant 1000. Written with \<open>toJSON\<close> and read
  back with \<open>fromJSON\<close> at the instant 2000, it has the same services and edges, and
  every \<open>createdAt\<close> and \<open>updatedAt\<close> is 2000: the timestamps of the document are lost.
\<close>

theorem fromJSON_toJSON_timestamps:
  "map createdAt (getAllServices exampleGraph) = [1000, 1000]
   \<and> map updatedAt (getAllServices exampleGraph) = [1000, 1000]
   \<and> map createdAt (getAllServices (fromJSON (\<lambda>k. 2000) (toJSON exampleGraph))) = [2000, 2000]
   \<and> map updatedAt (getAllServices (fromJSON (\<lambda>k. 2000) (toJSON exampleGraph))) = [2000, 2000]
   \<and> map nid (getAllServices (fromJSON (\<lambda>k. 2000) (toJSON exampleGraph))) =
       map nid (getAllServices exampleGraph)
   \<and> getAllEdges (fromJSON (\<lambda>k. 2000) (toJSON exampleGraph)) = getAllEdges exampleGraph"
  by code_simp


section \<open>Properties of the blast radius\<close>

lemma blastStep_direct:
  "hops p \<noteq> 1 \<Longrightarrow> accDirect (blastStep g p acc) = accDirect acc"
  by (simp add: blastStep_def Let_def split: option.splits)

lemma blast_fold_direct:
  "\<forall>p \<in> set ps. hops p \<noteq> 1 \<Longrightarrow> accDirect (fold (blastStep g) ps acc) = accDirect acc"
  by (induction ps arbitrary: acc) (simp_all add: blastStep_direct)

lemma blastStep_seen:
  "set (seen (blastStep g p acc)) = insert (affected p) (set (seen acc))"
  by (auto simp: blastStep_def Let_def split: option.splits)

lemma blastStep_transitive:
  "hops p \<noteq> 1 \<Longrightarrow> set (accTransitive (blastStep g p acc)) =
     set (accTransitive acc)
     \<union> {n. affected p \<notin> set (seen acc) \<and> getService g (affected p) = Some n}"
  by (auto simp: blastStep_def Let_def split: option.splits)

lemma blast_fold_transitive:
  "\<forall>p \<in> set ps. hops p \<noteq> 1 \<Longrightarrow>
   \<forall>i \<in> set (seen acc). \<forall>n. getService g i = Some n \<longrightarrow> n \<in> set (accTransitive acc) \<Longrightarrow>
   set (accTransitive (fold (blastStep g) ps acc)) =
     set (accTransitive acc) \<union> {n. \<exists>p \<in> set ps. getService g (affected p) = Some n}"
proof (induction ps arbitrary: acc)
  case Nil
  then show ?case by simp
next
  case (Cons p ps)
  have h: "hops p \<noteq> 1" using Cons.prems(1) by simp
  have inv: "\<forall>i \<in> set (seen (blastStep g p acc)).
      \<forall>n. getService g i = Some n \<longrightarrow> n \<in> set (accTransitive (blastStep g p acc))"
    using Cons.prems(2) by (auto simp: blastStep_seen blastStep_transitive[OF h])
  have "set (accTransitive (fold (blastStep g) ps (blastStep g p acc))) =
     set (accTransitive (blastStep g p acc))
     \<union> {n. \<exists>p \<in> set ps. getService g (affected p) = Some n}"
    using Cons.IH[OF _ inv] Cons.prems(1) by simp
  then show ?case using Cons.prems(2) by (auto simp: blastStep_transitive[OF h])
qed

text \<open>
  C9. Every impact path that \<open>getUpstreamImpact\<close> returns has \<open>hops\<close> equal to the length
  of its stored path, which starts at the service asked about, so \<open>hops\<close> is at least 2.
  Hence \<open>calculateBlastRadius\<close>, which takes a dependent for direct when \<open>hops\<close> is 1,
  returns no direct dependents, and its transitive dependents are all the services of
  the graph that some impact path affects.
\<close>

theorem calculateBlastRadius_no_direct:
  "(\<forall>p \<in> set (getUpstreamImpact g v d).
       hops p = length (path p) \<and> 2 \<le> hops p \<and> hd (path p) = v)
   \<and> directDependents (calculateBlastRadius g d v) = []
   \<and> set (transitiveDependents (calculateBlastRadius g d v)) =
       {n. \<exists>p \<in> set (getUpstreamImpact g v d). getService g (affected p) = Some n}"
proof -
  have h: "\<forall>p \<in> set (getUpstreamImpact g v d). hops p \<noteq> 1"
    using getUpstreamImpact_hops[of g v d] by auto
  have a: "directDependents (calculateBlastRadius g d v) = []"
    using blast_fold_direct[OF h] by (simp add: calculateBlastRadius_def Let_def)
  have b: "set (transitiveDependents (calculateBlastRadius g d v)) =
       {n. \<exists>p \<in> set (getUpstreamImpact g v d). getService g (affected p) = Some n}"
    using blast_fold_transitive[OF h] by (simp add: calculateBlastRadius_def Let_def)
  from getUpstreamImpact_hops[of g v d] a b show ?thesis by blast
qed

text \<open>
  The example graph shows it: \<open>a\<close> depends on \<open>b\<close> directly, and the blast radius of
  \<open>b\<close> lists \<open>a\<close> as a transitive dependent, with two hops.
\<close>

theorem calculateBlastRadius_no_direct_witness:
  "map hops (getUpstreamImpact exampleGraph ''b'' 3) = [2]
   \<and> map affected (getUpstreamImpact exampleGraph ''b'' 3) = [''a'']
   \<and> directDependents (calculateBlastRadius exampleGraph 3 ''b'') = []
   \<and> map nid (transitiveDependents (calculateBlastRadius exampleGraph 3 ''b'')) = [''a'']"
proof -
  have e: "map hops (getUpstreamImpact exampleGraph ''b'' 3) = [2]
      \<and> map affected (getUpstreamImpact exampleGraph ''b'' 3) = [''a'']
      \<and> map nid (transitiveDependents (calculateBlastRadius exampleGraph 3 ''b'')) = [''a'']"
    by code_simp
  from calculateBlastRadius_no_direct[of exampleGraph "''b''" 3]
  have "directDependents (calculateBlastRadius exampleGraph 3 ''b'') = []" by blast
  with e show ?thesis by blast
qed


section \<open>Properties of the investigation memory\<close>

lemma addNote_confirmedRootCause:
  "confirmedRootCause (addNote env t c options st) = confirmedRootCause st"
  by (simp add: addNote_def Let_def)

text \<open>
  C4, as the specification words it, fails: with one note of weak evidence attached
  to \<open>h1\<close>, confirming \<open>h1\<close> puts that note's content into the evidence of the root
  cause, and there is no note of strong evidence.
\<close>

theorem confirmed_evidence_counterexample:
  "map_option rcEvidence (confirmedRootCause
      (addHypothesisUpdate exampleEnv exampleHypothesis confirmed None exampleInvestigation))
     = Some [''CPU looks normal'']
   \<and> spec_strongEvidence exampleInvestigation exampleHypothesis = []"
  by code_simp

lemma evidenceNotesOf_addEvidence:
  "evidenceNotesOf (addEvidence env i c strength src svcs st) h =
     evidenceNotesOf st h @ (if i = hid h then [c] else [])"
  by (simp add: evidenceNotesOf_def addEvidence_def addNote_def Let_def)

lemma evidenceNotesOf_fold:
  "evidenceNotesOf
     (fold (\<lambda>(env, c, strength). addEvidence env (hid h) c strength None None) evs st) h =
   evidenceNotesOf st h @ map (\<lambda>(env, c, strength). c) evs"
proof (induction evs arbitrary: st)
  case Nil
  show ?case by simp
next
  case (Cons ev evs)
  obtain env c strength where ev: "ev = (env, c, strength)" by (cases ev)
  show ?case by (simp add: Cons.IH ev evidenceNotesOf_addEvidence)
qed

text \<open>
  C4, amended. Marking a hypothesis confirmed sets \<open>confirmedRootCause\<close> to the
  hypothesis's statement, with high confidence, and with the contents of all the
  evidence notes attached to that hypothesis so far, of any strength, in the order of
  the notes. In particular, after evidence was added for the hypothesis in a new
  investigation, the root cause lists the contents of all of it.
\<close>

theorem confirmed_root_cause:
  "confirmedRootCause (addHypothesisUpdate env h confirmed reasoning st) =
     Some \<lparr>rcHypothesis = statement h, rcConfidence = ConfHigh,
           rcEvidence = evidenceNotesOf st h\<rparr>
   \<and> confirmedRootCause (addHypothesisUpdate env h confirmed reasoning
        (fold (\<lambda>(env, c, strength). addEvidence env (hid h) c strength None None) evs
           (initialState q sid now))) =
     Some \<lparr>rcHypothesis = statement h, rcConfidence = ConfHigh,
           rcEvidence = map (\<lambda>(env, c, strength). c) evs\<rparr>"
proof -
  have a: "confirmedRootCause (addHypothesisUpdate env h confirmed reasoning st) =
     Some \<lparr>rcHypothesis = statement h, rcConfidence = ConfHigh,
           rcEvidence = evidenceNotesOf st h\<rparr>" for st
    by (simp add: addHypothesisUpdate_def addNote_confirmedRootCause evidenceNotesOf_def Let_def)
  have "evidenceNotesOf (initialState q sid now) h = []"
    by (simp add: evidenceNotesOf_def initialState_def)
  then show ?thesis by (simp add: a evidenceNotesOf_fold)
qed

section \<open>Properties of the scratchpad: graceful limits\<close>

lemma trackToolUsage_cong:
  "toolUsage sp = toolUsage sp' \<Longrightarrow>
   toolUsage (trackToolUsage e sp) = toolUsage (trackToolUsage e sp')"
  by (simp add: trackToolUsage_def Let_def)

lemma trackToolUsage_limits: "toolLimits (trackToolUsage e sp) = toolLimits sp"
  by (simp add: trackToolUsage_def Let_def)

lemma fold_track_limits: "toolLimits (fold trackToolUsage es sp) = toolLimits sp"
  by (induction es arbitrary: sp) (simp_all add: trackToolUsage_limits)

lemma appendToolResult_usage:
  "toolUsage (snd (appendToolResult now nowIso e c t sp)) = toolUsage (trackToolUsage e sp)"
  by (simp add: appendToolResult_def Let_def trackToolUsage_def split: ArgValue.split)

lemma appendToolResult_limits:
  "toolLimits (snd (appendToolResult now nowIso e c t sp)) = toolLimits sp"
  by (simp add: appendToolResult_def Let_def trackToolUsage_def)

lemma fold_append_usage:
  "toolUsage sp = toolUsage sp' \<Longrightarrow>
   toolUsage (fold (\<lambda>e sp. snd (appendToolResult now nowIso e None None sp)) es sp)
     = toolUsage (fold trackToolUsage es sp')"
proof (induction es arbitrary: sp sp')
  case Nil
  then show ?case by simp
next
  case (Cons e es)
  have "toolUsage (snd (appendToolResult now nowIso e None None sp))
      = toolUsage (trackToolUsage e sp')"
    using trackToolUsage_cong[OF Cons.prems] by (simp add: appendToolResult_usage)
  from Cons.IH[OF this] show ?case by simp
qed

lemma fold_append_limits:
  "toolLimits (fold (\<lambda>e sp. snd (appendToolResult now nowIso e None None sp)) es sp)
     = toolLimits sp"
  by (induction es arbitrary: sp) (simp_all add: appendToolResult_limits)

lemma canCallTool_cong:
  "toolUsage sp = toolUsage sp' \<Longrightarrow> toolLimits sp = toolLimits sp' \<Longrightarrow>
   canCallTool fp sp t q = canCallTool fp sp' t q"
  by (simp add: canCallTool_def cong: option.case_cong)

text \<open>What \<open>canCallTool\<close> answers after a list of appended results depends on the
  usage that \<open>trackToolUsage\<close> recorded for them.\<close>

lemma canCallTool_after:
  "canCallTool fp (scratchpadAfter limits es) t q =
   canCallTool fp (fold trackToolUsage es (newScratchpad limits)) t q"
  unfolding scratchpadAfter_def
  by (rule canCallTool_cong) (simp_all add: fold_append_usage fold_append_limits fold_track_limits)

lemmas scratchpad_eval =
  canCallTool_def limitOf_def retryWarning_def exactOps_def
  trackToolUsage_def newScratchpad_def exampleCall_def orArg_def truthy_def
  orElse_def similarTo_def maxSimilarity_def jaccard_def toLowerCase_def toLowerChar_def
  lowerTable_def isSpace_def showNat_def showInt_def toStringBase.simps digitChar_def
  mathRound_def Let_def

text \<open>
  The similarity that \<open>maxSimilarity\<close> computes is the greatest Jaccard similarity to a
  prior query, and 0 at least.
\<close>

lemma jaccard_sets: "jaccard fp q prev = spec_jaccard fp q prev"
proof -
  let ?A = "splitWhitespace (toLowerCase q)" and ?B = "splitWhitespace (toLowerCase prev)"
  have "length (filter (\<lambda>w. w \<in> set (remdups ?B)) (remdups ?A)) = card (set ?A \<inter> set ?B)"
  proof -
    have "length (filter (\<lambda>w. w \<in> set ?B) (remdups ?A))
        = card ({w. w \<in> set ?B} \<inter> set (remdups ?A))"
      by (rule distinct_length_filter) simp
    also have "{w. w \<in> set ?B} \<inter> set (remdups ?A) = set ?A \<inter> set ?B" by auto
    finally show ?thesis by simp
  qed
  moreover have "length (remdups (remdups ?A @ remdups ?B)) = card (set ?A \<union> set ?B)"
    by (simp add: length_remdups_card_conv)
  ultimately show ?thesis
    by (simp add: jaccard_def spec_jaccard_def wordSet_def Let_def)
qed

lemma fold_max_Max:
  fixes f :: "'a \<Rightarrow> rat"
  shows "fold (\<lambda>p m. max m (f p)) qs a = Max (insert a (f ` set qs))"
proof (induction qs arbitrary: a)
  case Nil
  show ?case by simp
next
  case (Cons q qs)
  have "fold (\<lambda>p m. max m (f p)) (q # qs) a = Max (insert (max a (f q)) (f ` set qs))"
    using Cons.IH[of "max a (f q)"] by simp
  also have "\<dots> = max (max a (f q)) (Max (insert (max a (f q)) (f ` set qs)))"
    by (simp add: max_def)
  also have "\<dots> = Max (insert a (insert (f q) (insert (max a (f q)) (f ` set qs))))"
    by simp
  also have "insert a (insert (f q) (insert (max a (f q)) (f ` set qs)))
      = insert a (f ` set (q # qs))"
    by (auto simp: max_def)
  finally show ?case .
qed

lemma maxSimilarity_Max:
  "maxSimilarity fp q previousQueries
     = Max (insert 0 (spec_jaccard fp q ` set previousQueries))"
proof -
  have "maxSimilarity fp q previousQueries
      = fold (\<lambda>prev maxSim. max maxSim (spec_jaccard fp q prev)) previousQueries 0"
    by (simp add: maxSimilarity_def jaccard_sets)
  then show ?thesis by (simp only: fold_max_Max)
qed

text \<open>
  A tool whose name is an inherited property of the limits object never gets a warning
  about the number of its calls.
\<close>

lemma canCallTool_inherited:
  "warning (canCallTool exactOps (scratchpadAfter []
      [exampleCall ''constructor'' ''a'', exampleCall ''constructor'' ''b'',
       exampleCall ''constructor'' ''c'', exampleCall ''constructor'' ''d'',
       exampleCall ''constructor'' ''e'', exampleCall ''constructor'' ''f''])
     ''constructor'' (Some ''g'')) = None"
  by (simp only: canCallTool_after) (simp add: scratchpad_eval objectPrototypeNames_def)

text \<open>
  C5, as the specification words it, fails. With the soft cap 3 for \<open>T\<close> and the four
  invocations of the agent's loop, each followed by the call it asked about, the
  warnings are: none, none, the warning with \<open>3/3\<close> (on the third), and on the fourth
  the warning that \<open>T\<close> has been called 3 times, which does not contain \<open>3/3\<close>. Without
  recorded calls there is no warning at all. And a query of Jaccard similarity exactly
  0.8 to the prior one gets no warning below the cap: the quotient of 4 and 5 is the
  double that the literal \<open>0.8\<close> denotes.
\<close>

theorem canCallTool_fourth_counterexample:
  "warning (canCallTool exactOps (scratchpadAfter [(''T'', 3)] []) ''T'' (Some ''alpha'')) = None
   \<and> warning (canCallTool exactOps (scratchpadAfter [(''T'', 3)] [exampleCall ''T'' ''alpha''])
        ''T'' (Some ''beta'')) = None
   \<and> warning (canCallTool exactOps (scratchpadAfter [(''T'', 3)]
          [exampleCall ''T'' ''alpha'', exampleCall ''T'' ''beta'']) ''T'' (Some ''gamma''))
       = Some ''Approaching suggested limit for \"T\" (3/3 calls).''
   \<and> warning (canCallTool exactOps (scratchpadAfter [(''T'', 3)]
          [exampleCall ''T'' ''alpha'', exampleCall ''T'' ''beta'', exampleCall ''T'' ''gamma''])
        ''T'' (Some ''delta''))
       = Some ''Tool \"T\" has been called 3 times (suggested limit: 3). Consider if additional calls are necessary.''
   \<and> \<not> includesStr ''Tool \"T\" has been called 3 times (suggested limit: 3). Consider if additional calls are necessary.'' ''3/3''
   \<and> jaccard exactOps ''a b c d'' ''a b c d e'' = 8 / 10
   \<and> warning (canCallTool exactOps (scratchpadAfter [(''T'', 3)] [exampleCall ''T'' ''a b c d e''])
        ''T'' (Some ''a b c d'')) = None"
  by (simp only: canCallTool_after) (simp add: scratchpad_eval)

text \<open>
  C5, amended. \<open>canCallTool\<close> always allows the call, and warns of nothing for a tool
  without recorded calls. With the soft cap 3 for a tool with recorded calls: from 3
  calls on, the warning says that the tool has been called that many times (suggested
  limit: 3); below 3 calls, and for a query and recorded queries that are ASCII
  strings, a query that is similar to a prior one gets the warning of similarity;
  otherwise at exactly 2 calls the warning says \<open>(3/3 calls)\<close>, and below 2 calls there
  is none. A query is similar when it is not empty, a prior query of the tool was
  recorded, and its greatest Jaccard similarity to the prior queries is strictly more
  than 0.8; the similarity that the warning reports is that greatest one.
\<close>

theorem canCallTool_soft_cap:
  "tlAllowed (canCallTool fp sp T q)
   \<and> (map_of (toolUsage sp) T = None \<longrightarrow> warning (canCallTool fp sp T q) = None)
   \<and> (map_of (toolLimits sp) T = Some 3 \<longrightarrow> map_of (toolUsage sp) T = Some stats \<longrightarrow>
        (3 \<le> callCount stats \<longrightarrow> warning (canCallTool fp sp T q) = Some
           (''Tool \"'' @ T @ ''\" has been called '' @ showNat (callCount stats)
            @ '' times (suggested limit: 3). Consider if additional calls are necessary.''))
      \<and> (asciiQueries stats q \<longrightarrow>
           (callCount stats < 3 \<longrightarrow> similarTo fp stats q = Some x \<longrightarrow>
              warning (canCallTool fp sp T q) = Some
                (''Query appears similar to a previous \"'' @ T @ ''\" call (''
                 @ showInt (mathRound (fmul fp x 100))
                 @ ''% similarity). This might be a retry loop.''))
         \<and> (callCount stats = 2 \<longrightarrow> similarTo fp stats q = None \<longrightarrow>
              warning (canCallTool fp sp T q) = Some
                (''Approaching suggested limit for \"'' @ T @ ''\" (3/3 calls).''))
         \<and> (callCount stats < 2 \<longrightarrow> similarTo fp stats q = None \<longrightarrow>
              warning (canCallTool fp sp T q) = None)))
   \<and> (asciiQueries stats (Some s) \<longrightarrow>
        similarTo fp stats (Some s) =
          (if s \<noteq> [] \<and> queries stats \<noteq> []
              \<and> Max (insert 0 (spec_jaccard fp s ` set (queries stats))) > flit fp (8 / 10)
           then Some (Max (insert 0 (spec_jaccard fp s ` set (queries stats))))
           else None))"
proof -
  have sh: "showInt 3 = ''3''" "showNat 3 = ''3''"
    by (simp_all add: showInt_def showNat_def toStringBase.simps digitChar_def)
  have a: "tlAllowed (canCallTool fp sp T q)"
    by (simp add: canCallTool_def Let_def split: option.splits)
  have b: "map_of (toolUsage sp) T = None \<longrightarrow> warning (canCallTool fp sp T q) = None"
    by (simp add: canCallTool_def Let_def)
  have c: "map_of (toolLimits sp) T = Some 3 \<Longrightarrow> map_of (toolUsage sp) T = Some stats \<Longrightarrow>
      canCallTool fp sp T q =
        (if 3 \<le> callCount stats
         then \<lparr>tlAllowed = True, warning = Some
                (''Tool \"'' @ T @ ''\" has been called '' @ showNat (callCount stats)
                 @ '' times (suggested limit: 3). Consider if additional calls are necessary.'')\<rparr>
         else (case similarTo fp stats q of
                 Some similarity \<Rightarrow> \<lparr>tlAllowed = True, warning = Some
                   (''Query appears similar to a previous \"'' @ T @ ''\" call (''
                    @ showInt (mathRound (fmul fp similarity 100))
                    @ ''% similarity). This might be a retry loop.'')\<rparr>
               | None \<Rightarrow>
                   if callCount stats = 2
                   then \<lparr>tlAllowed = True, warning = Some
                     (''Approaching suggested limit for \"'' @ T @ ''\" (3/3 calls).'')\<rparr>
                   else \<lparr>tlAllowed = True, warning = None\<rparr>))"
    by (auto simp: canCallTool_def limitOf_def retryWarning_def Let_def sh split: option.splits)
  have d: "similarTo fp stats (Some s) =
          (if s \<noteq> [] \<and> queries stats \<noteq> []
              \<and> Max (insert 0 (spec_jaccard fp s ` set (queries stats))) > flit fp (8 / 10)
           then Some (Max (insert 0 (spec_jaccard fp s ` set (queries stats))))
           else None)"
    unfolding similarTo_def maxSimilarity_Max
    by (simp only: option.case length_greater_0_conv)
  from c have e: "map_of (toolLimits sp) T = Some 3 \<longrightarrow> map_of (toolUsage sp) T = Some stats \<longrightarrow>
        (3 \<le> callCount stats \<longrightarrow> warning (canCallTool fp sp T q) = Some
           (''Tool \"'' @ T @ ''\" has been called '' @ showNat (callCount stats)
            @ '' times (suggested limit: 3). Consider if additional calls are necessary.''))
      \<and> (asciiQueries stats q \<longrightarrow>
           (callCount stats < 3 \<longrightarrow> similarTo fp stats q = Some x \<longrightarrow>
              warning (canCallTool fp sp T q) = Some
                (''Query appears similar to a previous \"'' @ T @ ''\" call (''
                 @ showInt (mathRound (fmul fp x 100))
                 @ ''% similarity). This might be a retry loop.''))
         \<and> (callCount stats = 2 \<longrightarrow> similarTo fp stats q = None \<longrightarrow>
              warning (canCallTool fp sp T q) = Some
                (''Approaching suggested limit for \"'' @ T @ ''\" (3/3 calls).''))
         \<and> (callCount stats < 2 \<longrightarrow> similarTo fp stats q = None \<longrightarrow>
              warning (canCallTool fp sp T q) = None))"
    by auto
  from a b e d show ?thesis by (intro conjI impI) blast+
qed

text \<open>
  The third invocation of the counterexample is an instance: cap 3, two recorded
  calls, a query that is not similar.
\<close>

theorem canCallTool_soft_cap_witness:
  "map_of (toolLimits (scratchpadAfter [(''T'', 3)]
       [exampleCall ''T'' ''alpha'', exampleCall ''T'' ''beta''])) ''T'' = Some 3
   \<and> map_of (toolUsage (scratchpadAfter [(''T'', 3)]
       [exampleCall ''T'' ''alpha'', exampleCall ''T'' ''beta''])) ''T''
       = Some \<lparr>callCount = 2, queries = [''alpha'', ''beta'']\<rparr>
   \<and> asciiQueries \<lparr>callCount = 2, queries = [''alpha'', ''beta'']\<rparr> (Some ''gamma'')
   \<and> similarTo exactOps \<lparr>callCount = 2, queries = [''alpha'', ''beta'']\<rparr> (Some ''gamma'') = None
   \<and> warning (canCallTool exactOps (scratchpadAfter [(''T'', 3)]
       [exampleCall ''T'' ''alpha'', exampleCall ''T'' ''beta'']) ''T'' (Some ''gamma''))
       = Some ''Approaching suggested limit for \"T\" (3/3 calls).''"
proof -
  let ?sp = "scratchpadAfter [(''T'', 3)] [exampleCall ''T'' ''alpha'', exampleCall ''T'' ''beta'']"
  let ?st = "\<lparr>callCount = 2, queries = [''alpha'', ''beta'']\<rparr>"
  have l: "map_of (toolLimits ?sp) ''T'' = Some 3"
    unfolding scratchpadAfter_def fold_append_limits by (simp add: newScratchpad_def)
  have "toolUsage ?sp = toolUsage (fold trackToolUsage
      [exampleCall ''T'' ''alpha'', exampleCall ''T'' ''beta''] (newScratchpad [(''T'', 3)]))"
    unfolding scratchpadAfter_def by (rule fold_append_usage) simp
  then have u: "map_of (toolUsage ?sp) ''T'' = Some ?st"
    by (simp add: scratchpad_eval)
  have k: "asciiQueries ?st (Some ''gamma'')"
    by (simp add: asciiQueries_def isAscii_def)
  have n: "similarTo exactOps ?st (Some ''gamma'') = None"
    by (simp add: scratchpad_eval)
  from canCallTool_soft_cap[of exactOps ?sp "''T''" "Some ''gamma''" ?st] l u k n
  have "warning (canCallTool exactOps ?sp ''T'' (Some ''gamma''))
       = Some (''Approaching suggested limit for \"'' @ ''T'' @ ''\" (3/3 calls).'')"
    by simp
  with l u k n show ?thesis by simp
qed

section \<open>Properties of the scratchpad: results stay retrievable\<close>

lemma digitChar_nth: "digitChar n = digits36 ! n"
  by (simp add: digitChar_def digits36_def)

lemma length_digits36: "length digits36 = 36"
  by (simp add: digits36_def)

lemma distinct_digits36: "distinct digits36"
  by (simp add: digits36_def)

lemma digitChar_inj: "a < 36 \<Longrightarrow> b < 36 \<Longrightarrow> digitChar a = digitChar b \<Longrightarrow> a = b"
  by (simp add: digitChar_nth nth_eq_iff_index_eq[OF distinct_digits36] length_digits36)

lemma digitChar_not_dash: "n < 36 \<Longrightarrow> digitChar n \<noteq> CHR ''-''"
proof -
  assume "n < 36"
  then have "digits36 ! n \<in> set digits36" by (simp add: length_digits36)
  moreover have "CHR ''-'' \<notin> set digits36" by (simp add: digits36_def)
  ultimately show ?thesis by (auto simp: digitChar_nth)
qed

lemma toString36_small: "n < 36 \<Longrightarrow> toStringBase 36 n = [digitChar n]"
  by (simp add: toStringBase.simps)

lemma toString36_big:
  "36 \<le> n \<Longrightarrow> toStringBase 36 n = toStringBase 36 (n div 36) @ [digitChar (n mod 36)]"
  by (simp add: toStringBase.simps[of 36 n])

lemma toString36_no_dash: "CHR ''-'' \<notin> set (toStringBase 36 n)"
proof (induction n rule: less_induct)
  case (less n)
  show ?case
  proof (cases "n < 36")
    case True
    then show ?thesis using digitChar_not_dash[of n] by (simp add: toString36_small)
  next
    case False
    then have "n div 36 < n" by simp
    from less[OF this] False digitChar_not_dash[of "n mod 36"] show ?thesis
      by (simp add: toString36_big)
  qed
qed

lemma toString36_length_pos: "1 \<le> length (toStringBase 36 n)"
  by (cases "n < 36") (simp_all add: toString36_small toString36_big)

lemma toString36_nonempty: "toStringBase 36 n \<noteq> []"
  using toString36_length_pos[of n] by auto

lemma toString36_length2: "36 \<le> n \<Longrightarrow> 2 \<le> length (toStringBase 36 n)"
  using toString36_length_pos[of "n div 36"] by (simp add: toString36_big)

lemma toString36_length4: "46656 \<le> n \<Longrightarrow> 4 \<le> length (toStringBase 36 n)"
proof -
  assume n: "46656 \<le> n"
  then have a: "36 \<le> n" "36 \<le> n div 36" "36 \<le> n div 36 div 36" by simp_all
  show ?thesis
    using toString36_length_pos[of "n div 36 div 36 div 36"]
    by (simp add: toString36_big[OF a(1)] toString36_big[OF a(2)] toString36_big[OF a(3)])
qed

lemma toString36_inj: "toStringBase 36 a = toStringBase 36 b \<Longrightarrow> a = b"
proof (induction a arbitrary: b rule: less_induct)
  case (less a)
  show ?case
  proof (cases "a < 36")
    case True
    show ?thesis
    proof (cases "b < 36")
      case True
      with \<open>a < 36\<close> less.prems show ?thesis by (simp add: toString36_small digitChar_inj)
    next
      case False
      then have "2 \<le> length (toStringBase 36 b)" by (simp add: toString36_length2)
      moreover have "length (toStringBase 36 a) = length (toStringBase 36 b)"
        using less.prems by simp
      ultimately show ?thesis using \<open>a < 36\<close> by (simp add: toString36_small)
    qed
  next
    case False
    show ?thesis
    proof (cases "b < 36")
      case True
      from False have "2 \<le> length (toStringBase 36 a)" by (simp add: toString36_length2)
      moreover have "length (toStringBase 36 a) = length (toStringBase 36 b)"
        using less.prems by simp
      ultimately show ?thesis using True by (simp add: toString36_small)
    next
      case bb: False
      from False bb less.prems
      have e: "toStringBase 36 (a div 36) = toStringBase 36 (b div 36)"
        and d: "digitChar (a mod 36) = digitChar (b mod 36)"
        by (simp_all add: toString36_big)
      from False have "a div 36 < a" by simp
      from less.IH[OF this e] have "a div 36 = b div 36" .
      moreover from d have "a mod 36 = b mod 36" by (simp add: digitChar_inj)
      ultimately show ?thesis by (metis div_mult_mod_eq)
    qed
  qed
qed

lemma toString36_no_leading_zero: "36 \<le> n \<Longrightarrow> hd (toStringBase 36 n) \<noteq> CHR ''0''"
proof (induction n rule: less_induct)
  case (less n)
  show ?case
  proof (cases "n div 36 < 36")
    case True
    from less.prems have "0 < n div 36" by simp
    with True digitChar_inj[of "n div 36" 0] have "digitChar (n div 36) \<noteq> CHR ''0''"
      by (auto simp: digitChar_def)
    with True less.prems show ?thesis by (simp add: toString36_big toString36_small)
  next
    case False
    then have b: "36 \<le> n div 36" by simp
    from less.prems have "n div 36 < n" by simp
    from less.IH[OF this b] toString36_nonempty[of "n div 36"] less.prems show ?thesis
      by (simp add: toString36_big[of n] hd_append)
  qed
qed

lemma counter_inj:
  "padStart0 2 (toStringBase 36 a) = padStart0 2 (toStringBase 36 b) \<Longrightarrow> a = b"
proof -
  assume e: "padStart0 2 (toStringBase 36 a) = padStart0 2 (toStringBase 36 b)"
  have p: "padStart0 2 (toStringBase 36 n) =
      (if n < 36 then [CHR ''0'', digitChar n] else toStringBase 36 n)" for n
    using toString36_length2[of n] by (auto simp: padStart0_def toString36_small numeral_2_eq_2)
  show ?thesis
  proof (cases "a < 36"; cases "b < 36")
    assume "a < 36" "b < 36"
    with e show ?thesis by (simp add: p digitChar_inj)
  next
    assume a: "a < 36" and b: "\<not> b < 36"
    then have "hd (toStringBase 36 b) \<noteq> CHR ''0''" by (simp add: toString36_no_leading_zero)
    moreover from e a b have "hd [CHR ''0'', digitChar a] = hd (toStringBase 36 b)"
      by (simp add: p)
    ultimately show ?thesis by simp
  next
    assume a: "\<not> a < 36" and b: "b < 36"
    then have "hd (toStringBase 36 a) \<noteq> CHR ''0''" by (simp add: toString36_no_leading_zero)
    moreover from e a b have "hd (toStringBase 36 a) = hd [CHR ''0'', digitChar b]"
      by (simp add: p)
    ultimately show ?thesis by simp
  next
    assume "\<not> a < 36" "\<not> b < 36"
    with e show ?thesis by (simp add: p toString36_inj)
  qed
qed

lemma sliceLast4:
  "46656 \<le> n \<Longrightarrow> length (sliceLast 4 (toStringBase 36 n)) = 4
     \<and> CHR ''-'' \<notin> set (sliceLast 4 (toStringBase 36 n))"
  using toString36_length4[of n] toString36_no_dash[of n]
  by (auto simp: sliceLast_def dest: in_set_dropD)

lemma id_shape_inj:
  assumes e: "p1 @ ''-'' @ t1 @ c1 = p2 @ ''-'' @ t2 @ c2"
    and t: "length t1 = 4" "length t2 = 4" "CHR ''-'' \<notin> set t1" "CHR ''-'' \<notin> set t2"
    and p: "length p1 \<le> 3" "length p2 \<le> 3"
  shows "c1 = c2"
proof -
  have no: "False" if e': "q1 @ ''-'' @ s1 @ d1 = q2 @ ''-'' @ s2 @ d2"
      and l: "length q1 < length q2" "length q2 \<le> 3" "length s1 = 4" "CHR ''-'' \<notin> set s1"
    for q1 q2 s1 s2 d1 d2 :: string
  proof -
    define k where "k = length q2 - Suc (length q1)"
    have k: "length q2 = length q1 + Suc k" "k < 3"
      using l(1,2) by (simp_all add: k_def)
    have a: "(q2 @ ''-'' @ s2 @ d2) ! length q2 = CHR ''-''" by simp
    have "(q1 @ (CHR ''-'' # (s1 @ d1))) ! (length q1 + Suc k) = (CHR ''-'' # (s1 @ d1)) ! Suc k"
      by (rule nth_append_length_plus)
    also have "\<dots> = s1 ! k" using k(2) l(3) by (simp add: nth_append)
    finally have b: "(q1 @ ''-'' @ s1 @ d1) ! length q2 = s1 ! k" using k(1) by simp
    have "s1 ! k \<in> set s1" using k(2) l(3) by simp
    moreover have "s1 ! k = CHR ''-''" using a b e' by simp
    ultimately show False using l(4) by simp
  qed
  have "length p1 = length p2"
  proof (rule ccontr)
    assume "length p1 \<noteq> length p2"
    then consider "length p1 < length p2" | "length p2 < length p1" by linarith
    then show False
    proof cases
      case 1
      from no[OF e 1 p(2) t(1) t(3)] show False .
    next
      case 2
      from no[OF e[symmetric] 2 p(1) t(2) t(4)] show False .
    qed
  qed
  with e have "t1 @ c1 = t2 @ c2" by simp
  with t(1,2) show ?thesis by simp
qed

lemma generateResultId_inj:
  assumes "generateResultId tool1 now1 c1 = generateResultId tool2 now2 c2"
    and "46656 \<le> now1" "46656 \<le> now2"
  shows "c1 = c2"
proof -
  have e: "toLowerCase (take 3 tool1) @ ''-'' @ sliceLast 4 (toStringBase 36 now1)
             @ padStart0 2 (toStringBase 36 c1)
         = toLowerCase (take 3 tool2) @ ''-'' @ sliceLast 4 (toStringBase 36 now2)
             @ padStart0 2 (toStringBase 36 c2)"
    using assms(1) unfolding generateResultId_def .
  have p: "length (toLowerCase (take 3 tool1)) \<le> 3" "length (toLowerCase (take 3 tool2)) \<le> 3"
    by (simp_all add: toLowerCase_def)
  note t1 = sliceLast4[OF assms(2)] and t2 = sliceLast4[OF assms(3)]
  have "padStart0 2 (toStringBase 36 c1) = padStart0 2 (toStringBase 36 c2)"
    by (rule id_shape_inj[OF e conjunct1[OF t1] conjunct1[OF t2] conjunct2[OF t1]
          conjunct2[OF t2] p])
  then show ?thesis by (rule counter_inj)
qed

lemma trackToolUsage_other:
  "tieredResults (trackToolUsage e sp) = tieredResults sp"
  "archivedResults (trackToolUsage e sp) = archivedResults sp"
  "resultIdCounter (trackToolUsage e sp) = resultIdCounter sp"
  by (simp_all add: trackToolUsage_def Let_def)

lemma appendToolResult_effect:
  "fst (appendToolResult nowMs nowIso e c t sp) = generateResultId (tool e) nowMs (Suc (resultIdCounter sp))"
  "map_of (tieredResults (snd (appendToolResult nowMs nowIso e c t sp))) =
     (map_of (tieredResults sp))
       (generateResultId (tool e) nowMs (Suc (resultIdCounter sp)) \<mapsto>
          e\<lparr>timestamp := nowIso,
            resultId := Some (generateResultId (tool e) nowMs (Suc (resultIdCounter sp))),
            tier := Some (orElse t TierFull), compactOf := c\<rparr>)"
  "archivedResults (snd (appendToolResult nowMs nowIso e c t sp)) = archivedResults sp"
  "resultIdCounter (snd (appendToolResult nowMs nowIso e c t sp)) = Suc (resultIdCounter sp)"
  by (simp_all add: appendToolResult_def Let_def trackToolUsage_other update_conv')

lemma archiveInv_append:
  assumes inv: "archiveInv sp A" and clock: "46656 \<le> nowMs"
  shows "archiveInv (snd (appendToolResult nowMs nowIso e c t sp))
           (A @ [(fst (appendToolResult nowMs nowIso e c t sp), stripTiered (e\<lparr>timestamp := nowIso\<rparr>))])"
proof -
  let ?rid = "generateResultId (tool e) nowMs (Suc (resultIdCounter sp))"
  have fresh: "map_of (tieredResults sp) ?rid = None"
  proof (rule ccontr)
    assume "map_of (tieredResults sp) ?rid \<noteq> None"
    with inv obtain toolName n k where
      "?rid = generateResultId toolName n k" "k \<le> resultIdCounter sp" "46656 \<le> n"
      unfolding archiveInv_def by blast
    with generateResultId_inj[of "tool e" nowMs "Suc (resultIdCounter sp)" toolName n k] clock
    show False by simp
  qed
  have notin: "?rid \<notin> fst ` set A"
    using inv fresh unfolding archiveInv_def by blast
  show ?thesis
    unfolding archiveInv_def appendToolResult_effect
    apply (intro conjI allI impI)
    subgoal for rid using inv unfolding archiveInv_def by (auto simp: image_Un)
    subgoal for rid r
    proof -
      assume "(rid, r) \<in> set (A @ [(?rid, stripTiered (e\<lparr>timestamp := nowIso\<rparr>))])"
      then consider "(rid, r) \<in> set A" | "rid = ?rid" "r = stripTiered (e\<lparr>timestamp := nowIso\<rparr>)"
        by auto
      then show ?thesis
      proof cases
        case 1
        then have "rid \<noteq> ?rid" using notin by force
        moreover from 1 inv obtain t0 where "map_of (tieredResults sp) rid = Some t0"
          "stripTiered t0 = r" unfolding archiveInv_def by blast
        ultimately show ?thesis by simp
      next
        case 2
        then show ?thesis by (simp add: stripTiered_def)
      qed
    qed
    subgoal for rid using inv unfolding archiveInv_def by auto
    subgoal for rid using inv clock unfolding archiveInv_def
      by (metis fun_upd_apply le_SucI order_refl)
    done
qed

lemma sameResults_refl: "sameResults sp sp"
  by (simp add: sameResults_def)

lemma sameResults_trans:
  "sameResults a b \<Longrightarrow> sameResults b c \<Longrightarrow> sameResults a c"
proof -
  assume ab: "sameResults a b" and bc: "sameResults b c"
  have dom: "map_of (tieredResults b) rid \<noteq> None \<longleftrightarrow> map_of (tieredResults a) rid \<noteq> None"
    for rid
  proof -
    from ab have "map_option stripTiered (map_of (tieredResults b) rid)
              = map_option stripTiered (map_of (tieredResults a) rid)"
      unfolding sameResults_def by blast
    then show ?thesis by (cases "map_of (tieredResults b) rid"; cases "map_of (tieredResults a) rid") simp_all
  qed
  show ?thesis
    unfolding sameResults_def
  proof (intro conjI allI impI)
    show "resultIdCounter c = resultIdCounter a"
      using ab bc unfolding sameResults_def by simp
  next
    fix rid
    show "map_option stripTiered (map_of (tieredResults c) rid)
        = map_option stripTiered (map_of (tieredResults a) rid)"
      using ab bc unfolding sameResults_def by simp
  next
    fix rid
    assume "map_of (archivedResults c) rid \<noteq> None"
    with bc have "map_of (archivedResults b) rid \<noteq> None \<or> map_of (tieredResults b) rid \<noteq> None"
      unfolding sameResults_def by blast
    then show "map_of (archivedResults a) rid \<noteq> None \<or> map_of (tieredResults a) rid \<noteq> None"
      using ab dom unfolding sameResults_def by blast
  qed
qed

lemma sameResults_fold:
  "(\<And>x sp. sameResults sp (f x sp)) \<Longrightarrow> sameResults sp (fold f xs sp)"
proof (induction xs arbitrary: sp)
  case Nil
  show ?case by (simp add: sameResults_refl)
next
  case (Cons x xs)
  from Cons.prems have "sameResults sp (f x sp)" .
  moreover have "sameResults (f x sp) (fold f xs (f x sp))" by (rule Cons.IH) (rule Cons.prems)
  ultimately show ?case by (simp add: sameResults_trans)
qed

lemma planTarget_Some:
  "planTarget sp scored = Some (rid, r) \<Longrightarrow> map_of (tieredResults sp) rid = Some r"
  by (auto simp: planTarget_def split: option.splits if_splits)

lemma sameResults_update:
  assumes "map_of (tieredResults sp) rid = Some r"
    and "stripTiered r' = stripTiered r"
    and "resultIdCounter sp' = resultIdCounter sp"
    and "map_of (tieredResults sp') = (map_of (tieredResults sp))(rid \<mapsto> r')"
    and "map_of (archivedResults sp') = map_of (archivedResults sp)
         \<or> map_of (archivedResults sp') = (map_of (archivedResults sp))(rid \<mapsto> x)"
  shows "sameResults sp sp'"
  unfolding sameResults_def
proof (intro conjI allI impI)
  show "resultIdCounter sp' = resultIdCounter sp" by (rule assms(3))
next
  fix k
  show "map_option stripTiered (map_of (tieredResults sp') k)
      = map_option stripTiered (map_of (tieredResults sp) k)"
    using assms(1,2,4) by (cases "k = rid") simp_all
next
  fix k
  assume "map_of (archivedResults sp') k \<noteq> None"
  then show "map_of (archivedResults sp) k \<noteq> None \<or> map_of (tieredResults sp) k \<noteq> None"
    using assms(1,5) by (cases "k = rid") auto
qed

lemma sameResults_applyFull: "sameResults sp (applyFull scored sp)"
proof (cases "planTarget sp scored")
  case None
  then show ?thesis by (simp add: applyFull_def sameResults_refl)
next
  case (Some a)
  obtain rid r where a: "a = (rid, r)" by (cases a)
  show ?thesis
    by (rule sameResults_update[OF planTarget_Some[OF Some[unfolded a]]])
       (simp_all add: applyFull_def Some a update_conv' stripTiered_def)
qed

lemma sameResults_applyCompact: "sameResults sp (applyCompact scored sp)"
proof (cases "planTarget sp scored")
  case None
  then show ?thesis by (simp add: applyCompact_def sameResults_refl)
next
  case (Some a)
  obtain rid r where a: "a = (rid, r)" by (cases a)
  show ?thesis
    by (rule sameResults_update[OF planTarget_Some[OF Some[unfolded a]]])
       (simp_all add: applyCompact_def Some a update_conv' stripTiered_def)
qed

lemma sameResults_applyClear: "sameResults sp (applyClear scored sp)"
proof (cases "planTarget sp scored")
  case None
  then show ?thesis by (simp add: applyClear_def sameResults_refl)
next
  case (Some a)
  obtain rid r where a: "a = (rid, r)" by (cases a)
  show ?thesis
    by (rule sameResults_update[OF planTarget_Some[OF Some[unfolded a]],
            where x = "r\<lparr>resultId := None, tier := None, compactOf := None,
              importanceScore := None\<rparr>"])
       (simp_all add: applyClear_def Some a update_conv' stripTiered_def)
qed

lemma sameResults_applyCompactionPlan: "sameResults sp (applyCompactionPlan plan sp)"
proof -
  let ?a = "fold applyFull (keepFull plan) sp"
  let ?b = "fold applyCompact (keepCompact plan) ?a"
  have "sameResults sp ?a" by (rule sameResults_fold) (rule sameResults_applyFull)
  moreover have "sameResults ?a ?b" by (rule sameResults_fold) (rule sameResults_applyCompact)
  moreover have "sameResults ?b (fold applyClear (clear plan) ?b)"
    by (rule sameResults_fold) (rule sameResults_applyClear)
  ultimately show ?thesis
    unfolding applyCompactionPlan_def by (blast intro: sameResults_trans)
qed

lemma sameResults_setCompactResult: "sameResults sp (setCompactResult rid c sp)"
proof (cases "map_of (tieredResults sp) rid")
  case None
  then show ?thesis by (simp add: setCompactResult_def sameResults_refl)
next
  case (Some r)
  show ?thesis
    by (rule sameResults_update[OF Some])
       (simp_all add: setCompactResult_def Some update_conv' stripTiered_def)
qed

lemma archiveInv_same:
  assumes inv: "archiveInv sp A" and same: "sameResults sp sp'"
  shows "archiveInv sp' A"
proof -
  have dom: "map_of (tieredResults sp') rid \<noteq> None \<longleftrightarrow> map_of (tieredResults sp) rid \<noteq> None"
    for rid
  proof -
    from same have "map_option stripTiered (map_of (tieredResults sp') rid)
              = map_option stripTiered (map_of (tieredResults sp) rid)"
      unfolding sameResults_def by blast
    then show ?thesis
      by (cases "map_of (tieredResults sp') rid"; cases "map_of (tieredResults sp) rid") simp_all
  qed
  have strip: "\<exists>t'. map_of (tieredResults sp') rid = Some t' \<and> stripTiered t' = stripTiered t"
    if "map_of (tieredResults sp) rid = Some t" for rid t
  proof -
    from same have "map_option stripTiered (map_of (tieredResults sp') rid)
              = map_option stripTiered (map_of (tieredResults sp) rid)"
      unfolding sameResults_def by blast
    with that show ?thesis by (cases "map_of (tieredResults sp') rid") simp_all
  qed
  show ?thesis
    unfolding archiveInv_def
  proof (intro conjI allI impI)
    fix rid
    show "rid \<in> fst ` set A \<longleftrightarrow> map_of (tieredResults sp') rid \<noteq> None"
      using inv dom unfolding archiveInv_def by simp
  next
    fix rid r
    assume "(rid, r) \<in> set A"
    with inv obtain t where "map_of (tieredResults sp) rid = Some t" "stripTiered t = r"
      unfolding archiveInv_def by blast
    with strip[of rid t] show "\<exists>t. map_of (tieredResults sp') rid = Some t \<and> stripTiered t = r"
      by auto
  next
    fix rid
    assume "map_of (archivedResults sp') rid \<noteq> None"
    with same have "map_of (archivedResults sp) rid \<noteq> None \<or> map_of (tieredResults sp) rid \<noteq> None"
      unfolding sameResults_def by blast
    with inv have "map_of (tieredResults sp) rid \<noteq> None" unfolding archiveInv_def by blast
    with dom show "map_of (tieredResults sp') rid \<noteq> None" by simp
  next
    fix rid
    assume "map_of (tieredResults sp') rid \<noteq> None"
    with dom have "map_of (tieredResults sp) rid \<noteq> None" by simp
    with inv obtain toolName nowMs c where "rid = generateResultId toolName nowMs c"
      "c \<le> resultIdCounter sp" "46656 \<le> nowMs" unfolding archiveInv_def by blast
    moreover have "resultIdCounter sp' = resultIdCounter sp"
      using same unfolding sameResults_def by simp
    ultimately show "\<exists>toolName nowMs c. rid = generateResultId toolName nowMs c
            \<and> c \<le> resultIdCounter sp' \<and> 46656 \<le> nowMs" by auto
  qed
qed

lemma storedAs_triple:
  "storedAs (rid, e, nowIso) = (rid, stripTiered (e\<lparr>timestamp := nowIso\<rparr>))"
  by (simp add: storedAs_def)

lemma archiveInv_run:
  "archiveInv sp A \<Longrightarrow> list_all clockOk ops \<Longrightarrow>
   archiveInv (runOps ops sp) (A @ map storedAs (assigned ops sp))"
proof (induction ops arbitrary: sp A)
  case Nil
  then show ?case by (simp add: runOps_def)
next
  case (Cons op ops)
  show ?case
  proof (cases op)
    case (OpAppend nowMs nowIso e c t)
    with Cons.prems have "46656 \<le> nowMs" by simp
    from archiveInv_append[OF Cons.prems(1) this, of nowIso e c t]
    have "archiveInv (runOps ops (snd (appendToolResult nowMs nowIso e c t sp)))
       ((A @ [(fst (appendToolResult nowMs nowIso e c t sp), stripTiered (e\<lparr>timestamp := nowIso\<rparr>))])
          @ map storedAs (assigned ops (snd (appendToolResult nowMs nowIso e c t sp))))"
      using Cons.prems(2) by (intro Cons.IH) simp_all
    then show ?thesis using OpAppend by (simp add: runOps_def storedAs_triple)
  next
    case (OpCompaction plan)
    have "archiveInv (applyCompactionPlan plan sp) A"
      by (rule archiveInv_same[OF Cons.prems(1) sameResults_applyCompactionPlan])
    from Cons.IH[OF this] Cons.prems(2) show ?thesis using OpCompaction by (simp add: runOps_def)
  next
    case (OpSetCompact rid c)
    have "archiveInv (setCompactResult rid c sp) A"
      by (rule archiveInv_same[OF Cons.prems(1) sameResults_setCompactResult])
    from Cons.IH[OF this] Cons.prems(2) show ?thesis using OpSetCompact by (simp add: runOps_def)
  qed
qed

lemma archiveInv_new: "archiveInv (newScratchpad limits) []"
  by (simp add: archiveInv_def newScratchpad_def)

lemma stripTiered_fields:
  "stripTiered r =
     \<lparr>tool = tool r, args = args r, result = result r, durationMs = durationMs r,
      timestamp = timestamp r, resultId = None, tier = None, compactOf = None,
      importanceScore = None\<rparr>"
  by (cases r) (simp add: stripTiered_def)

text \<open>
  C7. However results are appended, compaction plans applied and summaries set from a
  new scratchpad on, \<open>getResultById\<close> afterwards returns, for every result id that
  \<open>appendToolResult\<close> assigned along the way, the full result appended under it,
  whatever tier it is in: the tool, the arguments, the result and the duration of the
  entry that was passed to \<open>appendToolResult\<close>, with the timestamp that call gave it,
  and none of the tier fields. It returns \<open>null\<close> for every other id. The clock is
  taken to read at least \<open>36^3\<close> milliseconds at every append (\<open>clockOk\<close>), which
  makes the assigned ids pairwise distinct.
\<close>

theorem getResultById_assigned:
  assumes "list_all clockOk ops"
  shows "(\<forall>rid e nowIso. (rid, e, nowIso) \<in> set (assigned ops (newScratchpad limits)) \<longrightarrow>
            getResultById (runOps ops (newScratchpad limits)) rid =
              Some \<lparr>tool = tool e, args = args e, result = result e,
                    durationMs = durationMs e, timestamp = nowIso, resultId = None,
                    tier = None, compactOf = None, importanceScore = None\<rparr>)
       \<and> (\<forall>rid. rid \<notin> fst ` set (assigned ops (newScratchpad limits)) \<longrightarrow>
            getResultById (runOps ops (newScratchpad limits)) rid = None)"
proof -
  let ?sp = "runOps ops (newScratchpad limits)" and ?A = "assigned ops (newScratchpad limits)"
  from archiveInv_run[OF archiveInv_new assms, of limits]
  have inv: "archiveInv ?sp (map storedAs ?A)" by simp
  have ids: "fst ` set (map storedAs ?A) = fst ` set ?A"
    by (force simp: storedAs_def split: prod.splits)
  have a: "getResultById ?sp rid =
              Some \<lparr>tool = tool e, args = args e, result = result e,
                    durationMs = durationMs e, timestamp = nowIso, resultId = None,
                    tier = None, compactOf = None, importanceScore = None\<rparr>"
    if "(rid, e, nowIso) \<in> set ?A" for rid e nowIso
  proof -
    from that have "storedAs (rid, e, nowIso) \<in> set (map storedAs ?A)" by (simp only: set_map) (rule imageI)
    then have "(rid, stripTiered (e\<lparr>timestamp := nowIso\<rparr>)) \<in> set (map storedAs ?A)"
      by (simp only: storedAs_triple)
    with inv obtain t where "map_of (tieredResults ?sp) rid = Some t"
      "stripTiered t = stripTiered (e\<lparr>timestamp := nowIso\<rparr>)"
      unfolding archiveInv_def by blast
    then have "getResultById ?sp rid = Some (stripTiered (e\<lparr>timestamp := nowIso\<rparr>))"
      by (simp add: getResultById_def)
    then show ?thesis by (simp add: stripTiered_fields)
  qed
  have b: "getResultById ?sp rid = None" if "rid \<notin> fst ` set ?A" for rid
  proof -
    from that ids have "rid \<notin> fst ` set (map storedAs ?A)" by simp
    with inv have "map_of (tieredResults ?sp) rid = None"
      unfolding archiveInv_def by blast
    moreover from inv this have "map_of (archivedResults ?sp) rid = None"
      unfolding archiveInv_def by blast
    ultimately show ?thesis by (simp add: getResultById_def)
  qed
  from a b show ?thesis by blast
qed

lemmas run_eval = exampleOps_def runOps_def appendToolResult_def generateResultId_def
  toStringBase.simps digitChar_def sliceLast_def padStart0_def toLowerCase_def toLowerChar_def
  lowerTable_def exampleCall_def newScratchpad_def trackToolUsage_def orArg_def truthy_def
  orElse_def applyCompactionPlan_def applyClear_def planTarget_def stripTiered_def Let_def
  getResultById_def

text \<open>
  The example run: the one result is in the cleared tier at the end, and is returned
  in full under its id.
\<close>

theorem getResultById_assigned_witness:
  "list_all clockOk exampleOps
   \<and> assigned exampleOps (newScratchpad []) =
       [(''sea-3v2801'', exampleCall ''search_logs'' ''errors'', ''2023-11-14T22:13:20.000Z'')]
   \<and> map_option tier (map_of (tieredResults (runOps exampleOps (newScratchpad []))) ''sea-3v2801'')
       = Some (Some TierCleared)
   \<and> getResultById (runOps exampleOps (newScratchpad [])) ''sea-3v2801''
       = Some \<lparr>tool = ''search_logs'',
               args = \<lparr>argQuery = StrArg ''errors'', argSearch = FalsyArg, argFilter = FalsyArg,
                        argsJson = ''{\"query\":\"errors\"}''\<rparr>,
               result = StringResult ''ok'', durationMs = 5,
               timestamp = ''2023-11-14T22:13:20.000Z'', resultId = None, tier = None,
               compactOf = None, importanceScore = None\<rparr>
   \<and> getResultById (runOps exampleOps (newScratchpad [])) ''sea-3v2802'' = None"
proof -
  have c: "list_all clockOk exampleOps" by (simp add: exampleOps_def)
  have a: "assigned exampleOps (newScratchpad []) =
     [(''sea-3v2801'', exampleCall ''search_logs'' ''errors'', ''2023-11-14T22:13:20.000Z'')]"
    by (simp add: exampleOps_def appendToolResult_def generateResultId_def
      toStringBase.simps digitChar_def sliceLast_def padStart0_def toLowerCase_def toLowerChar_def
      lowerTable_def exampleCall_def newScratchpad_def Let_def)
  have t: "map_option tier (map_of (tieredResults (runOps exampleOps (newScratchpad []))) ''sea-3v2801'')
       = Some (Some TierCleared)"
    by (simp add: run_eval)
  from getResultById_assigned[OF c, of "[]"] a
  have "getResultById (runOps exampleOps (newScratchpad [])) ''sea-3v2801''
       = Some \<lparr>tool = tool (exampleCall ''search_logs'' ''errors''),
               args = args (exampleCall ''search_logs'' ''errors''),
               result = result (exampleCall ''search_logs'' ''errors''),
               durationMs = durationMs (exampleCall ''search_logs'' ''errors''),
               timestamp = ''2023-11-14T22:13:20.000Z'', resultId = None, tier = None,
               compactOf = None, importanceScore = None\<rparr>"
    and "getResultById (runOps exampleOps (newScratchpad [])) ''sea-3v2802'' = None"
    by simp_all
  with c a t show ?thesis by (simp add: exampleCall_def)
qed


section \<open>Properties of the context compactor\<close>













section \<open>Properties of the webhook server\<close>

lemma parse_example: "parseInt10 ''1700000000'' = Some 1700000000"
  by (simp add: parseInt10_def isStrWhiteSpace_def isSpace_def isDigit_def digitsValue_def
      digitValue_def Let_def)

lemma verify_headers:
  "verifySlackSignature hmac secret (Some sig) (Some ts) bodyText nowMs \<longleftrightarrow>
     sig \<noteq> [] \<and> ts \<noteq> []
     \<and> (\<forall>t. parseInt10 ts = Some t \<longrightarrow> \<bar>nowMs div 1000 - t\<bar> \<le> 300)
     \<and> sig = ''v0='' @ hmac secret (''v0:'' @ ts @ '':'' @ bodyText)"
  by (auto simp: verifySlackSignature_def Let_def split: option.splits)

lemma verify_missing:
  "\<not> verifySlackSignature hmac secret None tsH bodyText nowMs"
  "\<not> verifySlackSignature hmac secret sigH None bodyText nowMs"
  by (simp_all add: verifySlackSignature_def split: option.splits)

lemma parseInt10_nonempty: "parseInt10 ts = Some t \<Longrightarrow> ts \<noteq> []"
  by (auto simp: parseInt10_def Let_def)

text \<open>The two paths of the example, and some paths that \<open>join\<close> normalises.\<close>

lemma join_example:
  "join [''/pending'', ''mut_1.json''] = ''/pending/mut_1.json''"
  "join [''/pending'', ''mut_1_pending.json''] = ''/pending/mut_1_pending.json''"
  by (simp_all add: join_def normalize_def normalizeString_def normalizeStep_def)

lemma join_normalises:
  "join [''/pending/'', ''mut_1.json''] = ''/pending/mut_1.json''"
  "join [''./pending'', ''../mut_1.json''] = ''mut_1.json''"
  "join [''/srv/app'', ''.runbook'', ''pending''] = ''/srv/app/.runbook/pending''"
  "join [''..'', ''a'', ''..'', ''..'', ''b/''] = ''../../b/''"
  "join [''/'', ''..'', []] = ''/''"
  "join [[], []] = ''.''"
  by (simp_all add: join_def normalize_def normalizeString_def normalizeStep_def)

text \<open>
  C6, as the specification words it, fails: a click on the approve button of \<open>mut_1\<close>,
  correctly signed and fresh, is accepted; with no pending file for \<open>mut_1\<close> the
  handler answers 200 and writes no decision.
\<close>

theorem webhook_no_pending_counterexample:
  "\<forall>hmac cwd. handleRequest hmac cwd exampleConfig 1700000012345 ''2023-11-14T22:13:32.345Z''
      (approvalClick hmac) Map.empty
    = (\<lparr>status = 200,
        responseBody = ClearBody ''This approval request has expired or was already handled''\<rparr>,
       Map.empty)"
  by (simp add: handleRequest_def approvalClick_def exampleConfig_def verifySlackSignature_def
      handleApprovalAction_def parse_example Let_def)

text \<open>
  With the pending directory configured as \<open>/pending/\<close>, the same click finds the
  pending file and is approved: \<open>join\<close> drops the doubled slash.
\<close>

lemma webhook_trailing_slash:
  "\<forall>hmac cwd. fst (handleRequest hmac cwd (exampleConfig\<lparr>pendingDir := Some ''/pending/''\<rparr>)
      1700000012345 ''2023-11-14T22:13:32.345Z'' (approvalClick hmac) pendingFs)
    = \<lparr>status = 200, responseBody = ClearBody ''Mutation approved''\<rparr>"
  by (simp add: handleRequest_def approvalClick_def exampleConfig_def verifySlackSignature_def
      handleApprovalAction_def parse_example pendingDirOf_def pendingFs_def Let_def
      join_def normalize_def normalizeString_def normalizeStep_def)

text \<open>
  C6, amended. A POST to \<open>/slack/interactions\<close> is answered 401, and no file is
  touched, when the signature or the timestamp header is missing or empty, when the
  timestamp reads as a number more than 300 seconds from the current time, or when
  the signature is not \<open>v0=\<close> followed by the digest of \<open>v0:{ts}:{body}\<close> under the
  signing secret. It is accepted when the timestamp reads as a number within 300
  seconds and the signature is that one; then a click on an approve or reject button,
  when the file \<open>{mutationId}_pending.json\<close> exists in the pending directory, writes
  \<open>{mutationId}.json\<close> there with the decision and deletes the pending file, and when
  it does not exist, writes nothing and answers that the request has expired. The
  pending directory is the configured one, or \<open>.runbook/pending\<close> under the working
  directory when none is configured, and the two files are the paths that \<open>join\<close>
  makes of the directory and the two names.
\<close>

theorem webhook_contract:
  assumes "url req = ''/slack/interactions''" and "httpMethod req = ''POST''"
  shows
   "(slackSignature req = None \<or> slackSignature req = Some [] \<or> slackTimestamp req = None
       \<or> slackTimestamp req = Some []
       \<or> (\<exists>ts t. slackTimestamp req = Some ts \<and> parseInt10 ts = Some t
              \<and> \<bar>nowMs div 1000 - t\<bar> > 300)
       \<or> (\<exists>ts. slackTimestamp req = Some ts
              \<and> slackSignature req \<noteq> Some (expectedSignature hmac (signingSecret config) ts (body req)))
      \<longrightarrow> handleRequest hmac cwd config nowMs nowIso req fs
            = (\<lparr>status = 401, responseBody = TextBody ''Invalid signature''\<rparr>, fs))
    \<and> (\<forall>ts t payload action rest.
          slackTimestamp req = Some ts \<and> parseInt10 ts = Some t \<and> \<bar>nowMs div 1000 - t\<bar> \<le> 300
          \<and> slackSignature req = Some (expectedSignature hmac (signingSecret config) ts (body req))
          \<and> parsedPayload req = Some payload \<and> ptype payload = ''block_actions''
          \<and> actions payload = action # rest
          \<and> (startsWith (action_id action) ''approve_'' \<or> startsWith (action_id action) ''reject_'')
          \<longrightarrow>
          handleRequest hmac cwd config nowMs nowIso req fs =
            (if fs (join [pendingDirOf cwd config, actionValue action @ ''_pending.json'']) = None
             then (\<lparr>status = 200, responseBody =
                      ClearBody ''This approval request has expired or was already handled''\<rparr>, fs)
             else (\<lparr>status = 200, responseBody =
                      ClearBody (if startsWith (action_id action) ''approve_''
                                 then ''Mutation approved'' else ''Mutation rejected'')\<rparr>,
                   (fs(join [pendingDirOf cwd config, actionValue action @ ''.json''] \<mapsto>
                        DecisionFile
                          \<lparr>approved = startsWith (action_id action) ''approve_'',
                           approvedBy = ''slack:'' @ username (user payload),
                           approvedByName = displayName (user payload),
                           approvedAt = nowIso,
                           reason = (if startsWith (action_id action) ''approve_''
                                     then ''Approved via Slack'' else ''Rejected via Slack'')\<rparr>))
                     (join [pendingDirOf cwd config, actionValue action @ ''_pending.json''] := None))))"
proof (intro conjI impI allI)
  assume r: "slackSignature req = None \<or> slackSignature req = Some [] \<or> slackTimestamp req = None
       \<or> slackTimestamp req = Some []
       \<or> (\<exists>ts t. slackTimestamp req = Some ts \<and> parseInt10 ts = Some t
              \<and> \<bar>nowMs div 1000 - t\<bar> > 300)
       \<or> (\<exists>ts. slackTimestamp req = Some ts
              \<and> slackSignature req \<noteq> Some (expectedSignature hmac (signingSecret config) ts (body req)))"
  have "\<not> verifySlackSignature hmac (signingSecret config) (slackSignature req)
                 (slackTimestamp req) (body req) nowMs"
  proof (cases "slackSignature req"; cases "slackTimestamp req")
    fix sig ts
    assume s: "slackSignature req = Some sig" "slackTimestamp req = Some ts"
    with r show ?thesis
      by (auto simp: verify_headers expectedSignature_def)
  qed (simp_all add: verify_missing)
  with assms show "handleRequest hmac cwd config nowMs nowIso req fs
            = (\<lparr>status = 401, responseBody = TextBody ''Invalid signature''\<rparr>, fs)"
    by (simp add: handleRequest_def)
next
  fix ts t payload action rest
  assume a: "slackTimestamp req = Some ts \<and> parseInt10 ts = Some t \<and> \<bar>nowMs div 1000 - t\<bar> \<le> 300
          \<and> slackSignature req = Some (expectedSignature hmac (signingSecret config) ts (body req))
          \<and> parsedPayload req = Some payload \<and> ptype payload = ''block_actions''
          \<and> actions payload = action # rest
          \<and> (startsWith (action_id action) ''approve_'' \<or> startsWith (action_id action) ''reject_'')"
  then have v: "verifySlackSignature hmac (signingSecret config) (slackSignature req)
                 (slackTimestamp req) (body req) nowMs"
    using parseInt10_nonempty[of ts t] by (simp add: verify_headers expectedSignature_def)
  from a have h: "handleRequest hmac cwd config nowMs nowIso req fs =
      (let (res, fs') = handleApprovalAction payload action (pendingDirOf cwd config) nowIso fs
       in (\<lparr>status = 200, responseBody = ClearBody (message res)\<rparr>, fs'))"
    using assms v by (simp add: handleRequest_def)
  show "handleRequest hmac cwd config nowMs nowIso req fs =
            (if fs (join [pendingDirOf cwd config, actionValue action @ ''_pending.json'']) = None
             then (\<lparr>status = 200, responseBody =
                      ClearBody ''This approval request has expired or was already handled''\<rparr>, fs)
             else (\<lparr>status = 200, responseBody =
                      ClearBody (if startsWith (action_id action) ''approve_''
                                 then ''Mutation approved'' else ''Mutation rejected'')\<rparr>,
                   (fs(join [pendingDirOf cwd config, actionValue action @ ''.json''] \<mapsto>
                        DecisionFile
                          \<lparr>approved = startsWith (action_id action) ''approve_'',
                           approvedBy = ''slack:'' @ username (user payload),
                           approvedByName = displayName (user payload),
                           approvedAt = nowIso,
                           reason = (if startsWith (action_id action) ''approve_''
                                     then ''Approved via Slack'' else ''Rejected via Slack'')\<rparr>))
                     (join [pendingDirOf cwd config, actionValue action @ ''_pending.json''] := None)))"
    unfolding h using a by (auto simp: handleApprovalAction_def Let_def)
qed

text \<open>
  The same click with the pending file in place is an instance, and sixteen minutes
  later it is one of a stale timestamp.
\<close>

theorem webhook_contract_witness:
  "\<forall>hmac cwd.
     url (approvalClick hmac) = ''/slack/interactions'' \<and> httpMethod (approvalClick hmac) = ''POST''
     \<and> parseInt10 ''1700000000'' = Some 1700000000
     \<and> \<bar>1700000012345 div 1000 - 1700000000\<bar> \<le> (300 :: int)
     \<and> fst (handleRequest hmac cwd exampleConfig 1700000012345 ''2023-11-14T22:13:32.345Z''
           (approvalClick hmac) pendingFs)
         = \<lparr>status = 200, responseBody = ClearBody ''Mutation approved''\<rparr>
     \<and> snd (handleRequest hmac cwd exampleConfig 1700000012345 ''2023-11-14T22:13:32.345Z''
           (approvalClick hmac) pendingFs) ''/pending/mut_1.json''
         = Some (DecisionFile \<lparr>approved = True, approvedBy = ''slack:alice'',
             approvedByName = ''Alice'', approvedAt = ''2023-11-14T22:13:32.345Z'',
             reason = ''Approved via Slack''\<rparr>)
     \<and> snd (handleRequest hmac cwd exampleConfig 1700000012345 ''2023-11-14T22:13:32.345Z''
           (approvalClick hmac) pendingFs) ''/pending/mut_1_pending.json'' = None
     \<and> handleRequest hmac cwd exampleConfig 1700000999000 ''2023-11-14T22:29:59.000Z''
           (approvalClick hmac) pendingFs
         = (\<lparr>status = 401, responseBody = TextBody ''Invalid signature''\<rparr>, pendingFs)"
proof (intro allI)
  fix hmac :: "string \<Rightarrow> string \<Rightarrow> string" and cwd :: string
  let ?req = "approvalClick hmac"
  have u: "url ?req = ''/slack/interactions''" "httpMethod ?req = ''POST''"
    by (simp_all add: approvalClick_def)
  have p: "parseInt10 ''1700000000'' = Some 1700000000" by (rule parse_example)
  have f: "\<bar>1700000012345 div 1000 - 1700000000\<bar> \<le> (300 :: int)" by simp
  have d: "pendingDirOf cwd exampleConfig = ''/pending''" "signingSecret exampleConfig = ''s''"
    by (simp_all add: pendingDirOf_def exampleConfig_def)
  note c = webhook_contract[OF u, of _ hmac exampleConfig]
  have acc: "handleRequest hmac cwd exampleConfig 1700000012345 ''2023-11-14T22:13:32.345Z'' ?req pendingFs
     = (\<lparr>status = 200, responseBody = ClearBody ''Mutation approved''\<rparr>,
        (pendingFs(''/pending/mut_1.json'' \<mapsto>
            DecisionFile \<lparr>approved = True, approvedBy = ''slack:alice'',
             approvedByName = ''Alice'', approvedAt = ''2023-11-14T22:13:32.345Z'',
             reason = ''Approved via Slack''\<rparr>))(''/pending/mut_1_pending.json'' := None))"
    using c[of 1700000012345 cwd "''2023-11-14T22:13:32.345Z''" pendingFs, THEN conjunct2, rule_format,
        of "''1700000000''" 1700000000
           "\<lparr>ptype = ''block_actions'', user = \<lparr>username = ''alice'', displayName = ''Alice''\<rparr>,
             actions = [\<lparr>action_id = ''approve_mutation'', actionValue = ''mut_1''\<rparr>],
             hasChannelAndMessage = False\<rparr>"
           "\<lparr>action_id = ''approve_mutation'', actionValue = ''mut_1''\<rparr>" "[]"]
      p
    by (simp add: approvalClick_def expectedSignature_def d join_example pendingFs_def)
  have rej: "handleRequest hmac cwd exampleConfig 1700000999000 ''2023-11-14T22:29:59.000Z'' ?req pendingFs
         = (\<lparr>status = 401, responseBody = TextBody ''Invalid signature''\<rparr>, pendingFs)"
    using c[of 1700000999000 cwd "''2023-11-14T22:29:59.000Z''" pendingFs, THEN conjunct1] p
    by (simp add: approvalClick_def)
  show "url ?req = ''/slack/interactions'' \<and> httpMethod ?req = ''POST''
     \<and> parseInt10 ''1700000000'' = Some 1700000000
     \<and> \<bar>1700000012345 div 1000 - 1700000000\<bar> \<le> (300 :: int)
     \<and> fst (handleRequest hmac cwd exampleConfig 1700000012345 ''2023-11-14T22:13:32.345Z'' ?req pendingFs)
         = \<lparr>status = 200, responseBody = ClearBody ''Mutation approved''\<rparr>
     \<and> snd (handleRequest hmac cwd exampleConfig 1700000012345 ''2023-11-14T22:13:32.345Z'' ?req pendingFs)
           ''/pending/mut_1.json''
         = Some (DecisionFile \<lparr>approved = True, approvedBy = ''slack:alice'',
             approvedByName = ''Alice'', approvedAt = ''2023-11-14T22:13:32.345Z'',
             reason = ''Approved via Slack''\<rparr>)
     \<and> snd (handleRequest hmac cwd exampleConfig 1700000012345 ''2023-11-14T22:13:32.345Z'' ?req pendingFs)
           ''/pending/mut_1_pending.json'' = None
     \<and> handleRequest hmac cwd exampleConfig 1700000999000 ''2023-11-14T22:29:59.000Z'' ?req pendingFs
         = (\<lparr>status = 401, responseBody = TextBody ''Invalid signature''\<rparr>, pendingFs)"
    using u p f rej by (simp add: acc)
qed

end
